theory Spec2Isabelle
  imports Complex_Main "HOL-Library.Product_Lexorder" "HOL-Library.Multiset"
begin

section \<open>Python values and exceptions\<close>

text \<open>
  Exceptions of the engine are values: a function that may raise returns
  \<open>error + 'a\<close>, \<open>Inl\<close> carrying the exception. \<open>LibraryError\<close> stands for an
  exception raised inside numpy or scipy (an external library call that fails).
\<close>

datatype error =
    RuntimeError string
  | ValueError string
  | AssertionError
  | AttributeError
  | IndexError
  | KeyError
  | ZeroDivisionError
  | LibraryError

definition bind :: "error + 'a \<Rightarrow> ('a \<Rightarrow> error + 'b) \<Rightarrow> error + 'b" where
  "bind m f = (case m of Inl e \<Rightarrow> Inl e | Inr x \<Rightarrow> f x)"

definition attr :: "'a option \<Rightarrow> error + 'a" where
  \<comment> \<open>reading an attribute that may not have been set yet\<close>
  "attr x = (case x of None \<Rightarrow> Inl AttributeError | Some v \<Rightarrow> Inr v)"

definition lib :: "'a option \<Rightarrow> error + 'a" where
  \<comment> \<open>the result of an external library call, which may raise\<close>
  "lib x = (case x of None \<Rightarrow> Inl LibraryError | Some v \<Rightarrow> Inr v)"

definition py_int :: "real \<Rightarrow> int" where
  \<comment> \<open>Python's \<open>int(x)\<close> on a float: truncation towards zero\<close>
  "py_int x = (if 0 \<le> x then \<lfloor>x\<rfloor> else \<lceil>x\<rceil>)"

section \<open>imagedata.py: the image surface\<close>

text \<open>
  A 2-D numpy array is its shape and its entries; entries outside the shape are
  never read.
\<close>

record ndarray =
  shape :: "nat \<times> nat"
  pixel :: "nat \<Rightarrow> nat \<Rightarrow> real"

record cndarray =
  cshape :: "nat \<times> nat"
  cpixel :: "nat \<Rightarrow> nat \<Rightarrow> complex"

record image_data =
  image :: ndarray
  um_per_pixel :: real
  fft :: "cndarray option"







function np2_from :: "nat \<Rightarrow> nat \<Rightarrow> nat" where
  "np2_from p x = (if x \<le> p \<or> p = 0 then p else np2_from (2 * p) x)"
  by pat_completeness auto
termination
  by (relation "measure (\<lambda>(p, x). x - p)") auto

definition next_power_of_2 :: "nat \<Rightarrow> nat" where
  \<comment> \<open>Modelled from the spec: \<open>misc.next_power_of_2\<close> is not among the sources; the
      spec has it return the smallest power of two that is at least its argument.\<close>
  "next_power_of_2 x = np2_from 1 x"

definition np_pad :: "ndarray \<Rightarrow> (int \<times> int) \<times> (int \<times> int) \<Rightarrow> error + ndarray" where
  \<comment> \<open>\<open>np.pad(a, ((b0, a0), (b1, a1)), mode='constant')\<close>: zeros before and after
      each axis; numpy raises on a negative width\<close>
  "np_pad a w =
     (case w of ((b0, a0), (b1, a1)) \<Rightarrow>
        if b0 < 0 \<or> a0 < 0 \<or> b1 < 0 \<or> a1 < 0 then Inl LibraryError
        else
          let h = fst (shape a); wd = snd (shape a) in
          Inr \<lparr>shape = (nat b0 + h + nat a0, nat b1 + wd + nat a1),
               pixel = (\<lambda>r c. if nat b0 \<le> r \<and> r < nat b0 + h \<and> nat b1 \<le> c \<and> c < nat b1 + wd
                                then pixel a (r - nat b0) (c - nat b1) else 0)\<rparr>)"

definition fft2 :: "ndarray \<Rightarrow> cndarray" where
  \<comment> \<open>\<open>np.fft.fft2\<close>: the 2-D discrete Fourier transform, of the shape of its input\<close>
  "fft2 a =
     (let m = fst (shape a); n = snd (shape a) in
      \<lparr>cshape = (m, n),
       cpixel = (\<lambda>u v. \<Sum>r<m. \<Sum>c<n.
          of_real (pixel a r c) * cis (- 2 * pi * (real u * real r / real m + real v * real c / real n)))\<rparr>)"

definition check_square :: "ndarray \<Rightarrow> nat \<Rightarrow> error + ndarray" where
  \<comment> \<open>the guard of \<open>set_fft\<close> on the padded shape\<close>
  "check_square padded_im dimension =
     (if shape padded_im \<noteq> (dimension, dimension)
      then Inl (ValueError ''FFT of microscope image is not a power of 2, this will cause the program to stall.'')
      else Inr padded_im)"

definition padded_image :: "image_data \<Rightarrow> nat \<times> nat \<Rightarrow> error + ndarray" where
  \<comment> \<open>\<open>padded_im\<close> of \<open>set_fft\<close>, once past the guard; \<open>padding\<close> is a canvas shape, a
      pair of natural numbers\<close>
  "padded_image self padding =
     (let totalx = fst padding + fst (shape (image self));
          totaly = snd padding + snd (shape (image self));
          dimension = max (next_power_of_2 totalx) (next_power_of_2 totaly)
      in bind (np_pad (image self)
                 ((int (fst padding), int dimension - int totalx),
                  (int (snd padding), int dimension - int totaly)))
           (\<lambda>padded_im. check_square padded_im dimension))"

definition set_fft :: "image_data \<Rightarrow> nat \<times> nat \<Rightarrow> error + image_data" where
  "set_fft self padding =
     bind (padded_image self padding) (\<lambda>padded_im. Inr (self\<lparr>fft := Some (fft2 padded_im)\<rparr>))"

section \<open>The tiles and the external capabilities\<close>

type_synonym point = "real \<times> real"

type_synonym hit = "nat \<times> nat"

text \<open>
  \<open>FastqTileRCs\<close> (fastqtilercs.py) is not among the sources. A tile is the record of the
  attributes the engine reads and writes: \<open>aligned_rcs\<close> and \<open>rotation\<close> exist only once a
  transform has been applied (\<open>None\<close>: the attribute is not there); \<open>snr\<close> is \<open>None\<close> when
  unset or not a finite number.
\<close>

record FastqTileRCs =
  key :: string
  read_names :: "string list"
  rcs :: "point list"
  aligned_rcs :: "point list option"
  rotation :: "real option"
  snr :: "real option"

text \<open>
  The methods of a tile and the numpy and scipy calls whose results the engine only
  passes on are parameters of the model: every theorem holds for each choice of them.
  A library call that raises returns \<open>None\<close>.
\<close>

record ext =
  fft_align_with_im :: "FastqTileRCs \<Rightarrow> image_data \<Rightarrow> real \<times> point"
  set_aligned_rcs :: "FastqTileRCs \<Rightarrow> point \<Rightarrow> FastqTileRCs"
  set_aligned_rcs_given_transform :: "FastqTileRCs \<Rightarrow> real option \<Rightarrow> real \<Rightarrow> point \<Rightarrow> FastqTileRCs"
  set_correlation :: "FastqTileRCs \<Rightarrow> ndarray \<Rightarrow> FastqTileRCs"
  set_snr_with_control_corr :: "FastqTileRCs \<Rightarrow> real \<Rightarrow> FastqTileRCs"
  KDTree :: "point list \<Rightarrow> (point \<Rightarrow> nat) option"
  percentile :: "real list \<Rightarrow> real \<Rightarrow> real option"
  lstsq :: "real list list \<Rightarrow> real list \<Rightarrow> (real \<times> real \<times> real \<times> real) option"

section \<open>fastqimagealigner.py: the alignment engine\<close>

text \<open>
  The state of a \<open>FastqImageAligner\<close>. \<open>fastq_tiles\<close> is the dictionary of tiles, in its
  iteration order; the tiles of \<open>hitting_tiles\<close> are objects of that dictionary, held here
  by their keys, so that a change to a tile is seen wherever the tile is listed.
  \<open>clusters\<close> (the \<open>point_rcs\<close> of the cluster set) and \<open>fq_im_scaled_dims\<close> are attributes
  set after construction.
\<close>

record FastqImageAligner =
  fastq_tiles :: "(string \<times> FastqTileRCs) list"
  microns_per_pixel :: real
  image_data :: "image_data option"
  fq_w :: real
  control_corr :: real
  non_mutual_hits :: "hit set"
  mutual_hits :: "hit set"
  bad_mutual_hits :: "hit set"
  good_mutual_hits :: "hit set"
  exclusive_hits :: "hit set"
  hitting_tiles :: "string list"
  clusters :: "point list option"
  fq_im_scaled_dims :: "(nat \<times> nat) option"
  rcs_in_frame :: "(string \<times> int \<times> int) list"
  aligned_rcs_in_frame :: "point list"

definition get_tile :: "FastqImageAligner \<Rightarrow> string \<Rightarrow> error + FastqTileRCs" where
  "get_tile self k = (case map_of (fastq_tiles self) k of None \<Rightarrow> Inl KeyError | Some t \<Rightarrow> Inr t)"

definition put_tile :: "string \<Rightarrow> FastqTileRCs \<Rightarrow> FastqImageAligner \<Rightarrow> FastqImageAligner" where
  \<comment> \<open>a method of the tile under key \<open>k\<close> has changed it\<close>
  "put_tile k t self =
     self\<lparr>fastq_tiles := map (\<lambda>kt. if fst kt = k then (k, t) else kt) (fastq_tiles self)\<rparr>"

subsection \<open>Rough alignment\<close>

definition hit_step :: "ext \<Rightarrow> real \<Rightarrow> string \<Rightarrow> FastqImageAligner \<Rightarrow> error + FastqImageAligner" where
  \<comment> \<open>the body of \<open>for tile in possible_tiles\<close>. The quotient of \<open>tile.snr\<close> by a
      zero control correlation is numpy's inf, held as \<open>None\<close>.\<close>
  "hit_step E snr_thresh k self =
     bind (get_tile self k) (\<lambda>tile.
     bind (attr (image_data self)) (\<lambda>im.
       let max_corr = fst (fft_align_with_im E tile im);
           align_tr = snd (fft_align_with_im E tile im)
       in if max_corr > snr_thresh * control_corr self
          then
            let tile = set_aligned_rcs E tile align_tr;
                tile = tile\<lparr>snr := (if control_corr self = 0 then None
                                      else Some (max_corr / control_corr self))\<rparr>
            in Inr (put_tile k tile (self\<lparr>hitting_tiles := hitting_tiles self @ [k]\<rparr>))
          else Inr self))"

fun hit_loop :: "ext \<Rightarrow> real \<Rightarrow> string list \<Rightarrow> FastqImageAligner \<Rightarrow> error + FastqImageAligner" where
  "hit_loop E snr_thresh [] self = Inr self"
| "hit_loop E snr_thresh (k # ks) self = bind (hit_step E snr_thresh k self) (hit_loop E snr_thresh ks)"

definition control_step :: "ext \<Rightarrow> image_data \<Rightarrow> real \<Rightarrow> FastqTileRCs \<Rightarrow> real" where
  \<comment> \<open>the body of \<open>for control_tile in control_tiles\<close>, on \<open>self.control_corr\<close>\<close>
  "control_step E im cc control_tile =
     (let corr = fst (fft_align_with_im E control_tile im) in if corr > cc then corr else cc)"

definition find_hitting_tiles ::
  "ext \<Rightarrow> bool \<Rightarrow> string list \<Rightarrow> real \<Rightarrow> FastqImageAligner \<Rightarrow> error + FastqImageAligner" where
  "find_hitting_tiles E side1 possible_tile_keys snr_thresh self =
     (let possible_tiles =
            (if side1
             then let floor_possible_tile_keys =
                        map (\<lambda>possible_tiles. take 9 possible_tiles @ ''1'' @ drop 10 possible_tiles)
                          possible_tile_keys
                  in filter (\<lambda>key. key \<in> fst ` set (fastq_tiles self)) floor_possible_tile_keys
             else filter (\<lambda>key. key \<in> fst ` set (fastq_tiles self)) possible_tile_keys);
          possible_tiles = filter (\<lambda>key. key \<in> fst ` set (fastq_tiles self)) possible_tile_keys;
          impossible_tiles = filter (\<lambda>kt. fst kt \<notin> set possible_tiles) (fastq_tiles self);
          impossible_tiles = sort_key (\<lambda>kt. - int (length (read_names (snd kt)))) impossible_tiles;
          control_tiles = take 2 impossible_tiles
      in bind (attr (image_data self)) (\<lambda>im.
         bind (attr (fq_im_scaled_dims self)) (\<lambda>dims.
         bind (set_fft im dims) (\<lambda>im.
           let self = self\<lparr>image_data := Some im\<rparr>;
               self = self\<lparr>control_corr := 0\<rparr>;
               self = self\<lparr>control_corr := foldl (control_step E im) (control_corr self) (map snd control_tiles)\<rparr>;
               self = self\<lparr>hitting_tiles := []\<rparr>
           in hit_loop E snr_thresh possible_tiles self))))"

subsection \<open>Points in frame and distances\<close>

definition in_bounds :: "nat \<times> nat \<Rightarrow> point \<Rightarrow> bool" where
  \<comment> \<open>\<open>0 <= pt[0] < im_shape[0] and 0 <= pt[1] < im_shape[1]\<close>\<close>
  "in_bounds im_shape pt \<longleftrightarrow>
     0 \<le> fst pt \<and> fst pt < real (fst im_shape) \<and> 0 \<le> snd pt \<and> snd pt < real (snd im_shape)"

fun frame_points ::
  "nat \<times> nat \<Rightarrow> string \<Rightarrow> (int \<times> int) list \<Rightarrow> (nat \<times> point) list
     \<Rightarrow> point list \<times> (string \<times> int \<times> int) list
     \<Rightarrow> error + point list \<times> (string \<times> int \<times> int) list" where
  \<comment> \<open>\<open>for i, pt in enumerate(tile.aligned_rcs)\<close>; \<open>rcs[i]\<close> raises out of range\<close>
  "frame_points im_shape k rcs_int [] acc = Inr acc"
| "frame_points im_shape k rcs_int ((i, pt) # rest) acc =
     (if in_bounds im_shape pt
      then (if i < length rcs_int
            then frame_points im_shape k rcs_int rest (fst acc @ [pt], snd acc @ [(k, rcs_int ! i)])
            else Inl IndexError)
      else frame_points im_shape k rcs_int rest acc)"

fun frame_tiles ::
  "nat \<times> nat \<Rightarrow> FastqImageAligner \<Rightarrow> string list
     \<Rightarrow> point list \<times> (string \<times> int \<times> int) list
     \<Rightarrow> error + point list \<times> (string \<times> int \<times> int) list" where
  \<comment> \<open>\<open>for tile in considered_tiles\<close>\<close>
  "frame_tiles im_shape self [] acc = Inr acc"
| "frame_tiles im_shape self (k # ks) acc =
     bind (get_tile self k) (\<lambda>tile.
       let rcs_int = map (\<lambda>p. (py_int (fst p), py_int (snd p))) (rcs tile) in
       bind (attr (aligned_rcs tile)) (\<lambda>al.
       bind (frame_points im_shape (key tile) rcs_int (enumerate 0 al) acc)
         (frame_tiles im_shape self ks)))"

definition find_points_in_frame :: "string option \<Rightarrow> FastqImageAligner \<Rightarrow> error + FastqImageAligner" where
  \<comment> \<open>\<open>consider_tiles\<close> is \<open>'all'\<close> (\<open>None\<close>) or one tile (its key)\<close>
  "find_points_in_frame consider_tiles self =
     bind (attr (image_data self)) (\<lambda>im.
       let im_shape = shape (image im);
           considered_tiles = (case consider_tiles of None \<Rightarrow> hitting_tiles self | Some k \<Rightarrow> [k])
       in bind (frame_tiles im_shape self considered_tiles ([], [])) (\<lambda>acc.
            Inr (self\<lparr>rcs_in_frame := snd acc, aligned_rcs_in_frame := fst acc\<rparr>)))"

definition np_norm_diff :: "point \<Rightarrow> point \<Rightarrow> real" where
  \<comment> \<open>\<open>np.linalg.norm(p - q)\<close>\<close>
  "np_norm_diff p q = sqrt ((fst p - fst q)\<^sup>2 + (snd p - snd q)\<^sup>2)"

definition single_hit_dist :: "FastqImageAligner \<Rightarrow> hit \<Rightarrow> error + real" where
  "single_hit_dist self hit =
     bind (attr (clusters self)) (\<lambda>point_rcs.
       if fst hit < length point_rcs \<and> snd hit < length (aligned_rcs_in_frame self)
       then Inr (np_norm_diff (point_rcs ! fst hit) (aligned_rcs_in_frame self ! snd hit))
       else Inl IndexError)"

fun hit_dists :: "FastqImageAligner \<Rightarrow> hit list \<Rightarrow> error + real list" where
  "hit_dists self [] = Inr []"
| "hit_dists self (h # hs) =
     bind (single_hit_dist self h) (\<lambda>d. bind (hit_dists self hs) (\<lambda>ds. Inr (d # ds)))"

fun filter_by_dist :: "FastqImageAligner \<Rightarrow> real \<Rightarrow> hit list \<Rightarrow> error + hit list" where
  \<comment> \<open>\<open>[hit for hit in hits if self.single_hit_dist(hit) <= thresh]\<close>\<close>
  "filter_by_dist self thresh [] = Inr []"
| "filter_by_dist self thresh (h # hs) =
     bind (single_hit_dist self h) (\<lambda>d.
     bind (filter_by_dist self thresh hs) (\<lambda>r. Inr (if d \<le> thresh then h # r else r)))"

definition remove_longest_hits :: "ext \<Rightarrow> FastqImageAligner \<Rightarrow> hit list \<Rightarrow> real \<Rightarrow> error + hit list" where
  "remove_longest_hits E self hits pct_thresh =
     (if hits = [] then Inr []
      else bind (hit_dists self hits) (\<lambda>dists.
           bind (lib (percentile E dists (pct_thresh * 100))) (\<lambda>thresh.
             filter_by_dist self thresh hits)))"

subsection \<open>Hit classification\<close>

definition list_of :: "hit set \<Rightarrow> hit list" where
  \<comment> \<open>Python iterates over a set in an order it does not specify; the model takes the
      sorted one\<close>
  "list_of S = sorted_list_of_set S"

definition cluster_to_aligned_indexes :: "(point \<Rightarrow> nat) \<Rightarrow> point list \<Rightarrow> hit set" where
  \<comment> \<open>\<open>(i, idx)\<close> for \<open>idx\<close> the answer of \<open>aligned_tree.query\<close> on cluster point \<open>i\<close>\<close>
  "cluster_to_aligned_indexes aligned_tree point_rcs =
     set (map (\<lambda>ip. (fst ip, aligned_tree (snd ip))) (enumerate 0 point_rcs))"

definition aligned_to_cluster_indexs_rev :: "(point \<Rightarrow> nat) \<Rightarrow> point list \<Rightarrow> hit set" where
  \<comment> \<open>\<open>(idx, i)\<close> for \<open>idx\<close> the answer of \<open>cluster_tree.query\<close> on projected point \<open>i\<close>\<close>
  "aligned_to_cluster_indexs_rev cluster_tree aligned =
     set (map (\<lambda>ip. (cluster_tree (snd ip), fst ip)) (enumerate 0 aligned))"

definition exclusive_of :: "hit set \<Rightarrow> hit set \<Rightarrow> hit set" where
  \<comment> \<open>the exclusive hits before the distance cap\<close>
  "exclusive_of mutual non_mutual =
     (let cluster_in_non_mutual = fst ` non_mutual;
          aligned_in_non_mutual = snd ` non_mutual
      in Set.filter (\<lambda>h. fst h \<notin> cluster_in_non_mutual \<and> snd h \<notin> aligned_in_non_mutual) mutual)"

definition good_hit_threshold :: "ext \<Rightarrow> FastqImageAligner \<Rightarrow> hit set \<Rightarrow> error + real" where
  "good_hit_threshold E self exclusive =
     bind (attr (image_data self)) (\<lambda>im.
       if um_per_pixel im = 0 then Inl ZeroDivisionError
       else if py_int (16 / um_per_pixel im) = 60 then Inr 5
       else bind (hit_dists self (list_of exclusive)) (\<lambda>ds. lib (percentile E ds 95)))"

definition third_wheels :: "hit set \<Rightarrow> hit \<Rightarrow> hit list" where
  "third_wheels non_mutual h =
     filter (\<lambda>tup. fst h = fst tup \<or> snd h = snd tup) (list_of non_mutual)"

fun good_mutual_loop ::
  "FastqImageAligner \<Rightarrow> hit set \<Rightarrow> real \<Rightarrow> real \<Rightarrow> hit list \<Rightarrow> hit set \<Rightarrow> error + hit set" where
  \<comment> \<open>\<open>for i, j in (mutual_hits - exclusive_hits)\<close>; \<open>min\<close> of no values raises\<close>
  "good_mutual_loop self nm good_thresh second_thresh [] good = Inr good"
| "good_mutual_loop self nm good_thresh second_thresh (h # hs) good =
     bind (hit_dists self [h]) (\<lambda>ds.
       if hd ds > good_thresh then good_mutual_loop self nm good_thresh second_thresh hs good
       else bind (hit_dists self (third_wheels nm h)) (\<lambda>tds.
         if tds = [] then Inl (ValueError ''min() arg is an empty sequence'')
         else if Min (set tds) > second_thresh
           then good_mutual_loop self nm good_thresh second_thresh hs (insert h good)
           else good_mutual_loop self nm good_thresh second_thresh hs good))"

definition nearest_neighbors :: "ext \<Rightarrow> FastqImageAligner \<Rightarrow> error + hit set \<times> hit set" where
  \<comment> \<open>the two trees and the two directional relations, all pairs in the order
      \<open>(cluster_index, aligned_in_frame_idx)\<close>\<close>
  "nearest_neighbors E self =
     bind (attr (clusters self)) (\<lambda>point_rcs.
     bind (lib (KDTree E point_rcs)) (\<lambda>cluster_tree.
     bind (lib (KDTree E (aligned_rcs_in_frame self))) (\<lambda>aligned_tree.
       Inr (cluster_to_aligned_indexes aligned_tree point_rcs,
            aligned_to_cluster_indexs_rev cluster_tree (aligned_rcs_in_frame self)))))"

definition sym_diff :: "hit set \<Rightarrow> hit set \<Rightarrow> hit set" where
  \<comment> \<open>the operator \<open>^\<close> on Python sets\<close>
  "sym_diff A B = (A - B) \<union> (B - A)"

definition classify_hits ::
  "ext \<Rightarrow> FastqImageAligner \<Rightarrow> hit set \<Rightarrow> hit set
     \<Rightarrow> error + hit set \<times> hit set \<times> hit set \<times> hit set \<times> hit set" where
  \<comment> \<open>the categories of hits and the assertion; the result is
      \<open>(non_mutual_hits, mutual_hits, bad_mutual_hits, good_mutual_hits, exclusive_hits)\<close>\<close>
  "classify_hits E self cluster_to_aligned aligned_to_cluster =
     (let mutual = cluster_to_aligned \<inter> aligned_to_cluster;
          non_mutual = sym_diff cluster_to_aligned aligned_to_cluster;
          exclusive = exclusive_of mutual non_mutual
      in
      bind (good_hit_threshold E self exclusive) (\<lambda>good_thresh.
      let second_neighbor_thresh = 2 * good_thresh in
      bind (filter_by_dist self good_thresh (list_of exclusive)) (\<lambda>capped.
      let exclusive = set capped in
      bind (good_mutual_loop self non_mutual good_thresh second_neighbor_thresh
              (list_of (mutual - exclusive)) {}) (\<lambda>good_mutual.
      let bad_mutual = mutual - exclusive - good_mutual in
      if non_mutual \<union> bad_mutual \<union> good_mutual \<union> exclusive = cluster_to_aligned \<union> aligned_to_cluster
         \<and> card non_mutual + card bad_mutual + card good_mutual + card exclusive
             = card (cluster_to_aligned \<union> aligned_to_cluster)
      then Inr (non_mutual, mutual, bad_mutual, good_mutual, exclusive)
      else Inl AssertionError))))"

definition find_hits :: "ext \<Rightarrow> string option \<Rightarrow> FastqImageAligner \<Rightarrow> error + FastqImageAligner" where
  "find_hits E consider_tiles self =
     bind (find_points_in_frame consider_tiles self) (\<lambda>self.
     bind (nearest_neighbors E self) (\<lambda>nn.
     bind (classify_hits E self (fst nn) (snd nn)) (\<lambda>cat.
       case cat of (non_mutual, mutual, bad_mutual, good_mutual, exclusive) \<Rightarrow>
         Inr (self\<lparr>non_mutual_hits := non_mutual, mutual_hits := mutual,
                    bad_mutual_hits := bad_mutual, good_mutual_hits := good_mutual,
                    exclusive_hits := exclusive\<rparr>))))"

subsection \<open>Precision alignment\<close>

definition arctan2 :: "real \<Rightarrow> real \<Rightarrow> real" where
  \<comment> \<open>\<open>np.arctan2(y, x)\<close>: the angle of the point \<open>(x, y)\<close>, 0 at the origin\<close>
  "arctan2 y x = Arg (Complex x y)"

fun lstsq_rows :: "FastqImageAligner \<Rightarrow> hit list \<Rightarrow> error + real list list \<times> real list" where
  \<comment> \<open>the rows of \<open>A\<close> and \<open>b\<close>, two for each hit \<open>(cluster_index, in_frame_idx)\<close>\<close>
  "lstsq_rows self [] = Inr ([], [])"
| "lstsq_rows self (h # hits) =
     (if snd h < length (rcs_in_frame self) then
        let xir = real_of_int (fst (snd (rcs_in_frame self ! snd h)));
            yir = real_of_int (snd (snd (rcs_in_frame self ! snd h)))
        in bind (attr (clusters self)) (\<lambda>point_rcs.
           if fst h < length point_rcs then
             let xis = fst (point_rcs ! fst h); yis = snd (point_rcs ! fst h) in
             bind (lstsq_rows self hits) (\<lambda>Ab.
               Inr ([xir, - yir, 1, 0] # [yir, xir, 0, 1] # fst Ab, xis # yis # snd Ab))
           else Inl IndexError)
      else Inl IndexError)"

definition fit_tile :: "ext \<Rightarrow> string \<Rightarrow> hit list \<Rightarrow> FastqImageAligner \<Rightarrow> error + FastqImageAligner" where
  \<comment> \<open>the least-squares fit of one tile and the update of the tile. Where \<open>cos theta\<close>
      is 0 numpy's quotient is nan: the scale \<open>None\<close>.\<close>
  "fit_tile E k hits self =
     bind (lstsq_rows self hits) (\<lambda>Ab.
     bind (lib (lstsq E (fst Ab) (snd Ab))) (\<lambda>x.
       case x of (alpha, beta, x_offset, y_offset) \<Rightarrow>
         let offset = (x_offset, y_offset);
             theta = arctan2 beta alpha;
             lbda = (if cos theta = 0 then None else Some (alpha / cos theta))
         in bind (get_tile self k) (\<lambda>tile.
            bind (attr (image_data self)) (\<lambda>im.
              let tile = set_aligned_rcs_given_transform E tile lbda theta offset;
                  tile = set_correlation E tile (image im);
                  tile = set_snr_with_control_corr E tile (control_corr self)
              in Inr (put_tile k tile self)))))"

definition hit_pool :: "ext \<Rightarrow> real \<Rightarrow> FastqImageAligner \<Rightarrow> error + hit list" where
  \<comment> \<open>\<open>raw_hits = get_hits(('exclusive', 'good_mutual'))\<close>, then the trim\<close>
  "hit_pool E pct_thresh self =
     (let raw_hits = list_of (exclusive_hits self) @ list_of (good_mutual_hits self)
      in remove_longest_hits E self raw_hits pct_thresh)"

fun lsm_loop ::
  "ext \<Rightarrow> real \<Rightarrow> int \<Rightarrow> string list \<Rightarrow> bool \<Rightarrow> FastqImageAligner \<Rightarrow> error + bool \<times> FastqImageAligner" where
  \<comment> \<open>\<open>for tile in self.hitting_tiles\<close>, with \<open>found_good_mapping\<close>\<close>
  "lsm_loop E pct_thresh min_hits [] found self = Inr (found, self)"
| "lsm_loop E pct_thresh min_hits (k # ks) found self =
     bind (find_hits E (Some k) self) (\<lambda>self.
     bind (hit_pool E pct_thresh self) (\<lambda>hits.
       if int (length hits) < min_hits then lsm_loop E pct_thresh min_hits ks found self
       else bind (fit_tile E k hits self) (\<lambda>self. lsm_loop E pct_thresh min_hits ks True self)))"

definition least_squares_mapping ::
  "ext \<Rightarrow> real \<Rightarrow> int \<Rightarrow> FastqImageAligner \<Rightarrow> error + bool \<times> FastqImageAligner" where
  "least_squares_mapping E pct_thresh min_hits self =
     lsm_loop E pct_thresh min_hits (hitting_tiles self) False self"

definition precision_align_only :: "ext \<Rightarrow> int \<Rightarrow> FastqImageAligner \<Rightarrow> error + FastqImageAligner" where
  "precision_align_only E min_hits self =
     (if hitting_tiles self = [] then Inl (RuntimeError ''Alignment not found'')
      else bind (least_squares_mapping E (9 / 10) min_hits self) (\<lambda>r.
        if \<not> fst r then Inl (ValueError ''Could not precision align!'')
        else find_hits E None (snd r)))"

subsection \<open>The output stream\<close>

definition tile_lines :: "nat \<times> nat \<Rightarrow> string list \<Rightarrow> point list \<Rightarrow> (string \<times> real \<times> real) list" where
  \<comment> \<open>what one tile yields: \<open>izip\<close> stops with the shorter sequence. A line
      \<open>'%s\t%f\t%f\n'\<close> is held as the triple it prints.\<close>
  "tile_lines im_shape names al =
     map (\<lambda>np. (fst np, fst (snd np), snd (snd np)))
       (filter (\<lambda>np. in_bounds im_shape (snd np)) (zip names al))"

fun read_names_rcs_loop ::
  "nat \<times> nat \<Rightarrow> FastqImageAligner \<Rightarrow> string list \<Rightarrow> (string \<times> real \<times> real) list \<times> error option" where
  "read_names_rcs_loop im_shape self [] = ([], None)"
| "read_names_rcs_loop im_shape self (k # ks) =
     (case get_tile self k of
        Inl e \<Rightarrow> ([], Some e)
      | Inr tile \<Rightarrow>
          (case rotation tile of
             None \<Rightarrow> read_names_rcs_loop im_shape self ks
           | Some r \<Rightarrow>
               (case aligned_rcs tile of
                  None \<Rightarrow> ([], Some AttributeError)
                | Some al \<Rightarrow>
                    let rest = read_names_rcs_loop im_shape self ks
                    in (tile_lines im_shape (read_names tile) al @ fst rest, snd rest))))"

definition read_names_rcs :: "FastqImageAligner \<Rightarrow> (string \<times> real \<times> real) list \<times> error option" where
  \<comment> \<open>the generator: the lines it yields, and the exception that ends it, if one does\<close>
  "read_names_rcs self =
     (case image_data self of
        None \<Rightarrow> ([], Some AttributeError)
      | Some im \<Rightarrow> read_names_rcs_loop (shape (image im)) self (hitting_tiles self))"

section \<open>Notions used in the statements\<close>

definition tile_pool :: "ext \<Rightarrow> real \<Rightarrow> string \<Rightarrow> FastqImageAligner \<Rightarrow> error + hit list" where
  \<comment> \<open>the trimmed pool of candidate hits of one hitting tile, as the loop of
      \<open>least_squares_mapping\<close> computes it\<close>
  "tile_pool E pct_thresh k self = bind (find_hits E (Some k) self) (hit_pool E pct_thresh)"

definition agree :: "FastqImageAligner \<Rightarrow> FastqImageAligner \<Rightarrow> bool" where
  \<comment> \<open>two engines with the same clusters, points in frame and image\<close>
  "agree s1 s2 \<longleftrightarrow> clusters s1 = clusters s2
     \<and> aligned_rcs_in_frame s1 = aligned_rcs_in_frame s2 \<and> image_data s1 = image_data s2"

definition plain_error :: "error \<Rightarrow> bool" where
  \<comment> \<open>the exceptions of a failed lookup or a failed library call\<close>
  "plain_error e \<longleftrightarrow>
     e = AttributeError \<or> e = IndexError \<or> e = KeyError \<or> e = ZeroDivisionError \<or> e = LibraryError"

section \<open>Example data\<close>

text \<open>
  A concrete engine for the instances below: stand-ins for the tile methods, a nearest
  neighbour search by exhaustive comparison, and numpy's percentile by linear
  interpolation. The theorems do not depend on them.
\<close>

definition sqdist :: "point \<Rightarrow> point \<Rightarrow> real" where
  "sqdist p q = (fst p - fst q)\<^sup>2 + (snd p - snd q)\<^sup>2"

fun nearest_from :: "point \<Rightarrow> nat \<Rightarrow> real \<Rightarrow> (nat \<times> point) list \<Rightarrow> nat" where
  "nearest_from q best d [] = best"
| "nearest_from q best d ((i, p) # rest) =
     (if sqdist p q < d then nearest_from q i (sqdist p q) rest else nearest_from q best d rest)"

definition kdtree_example :: "point list \<Rightarrow> (point \<Rightarrow> nat) option" where
  "kdtree_example pts = (if pts = [] then None
     else Some (\<lambda>q. nearest_from q 0 (sqdist (hd pts) q) (enumerate 0 pts)))"

definition percentile_example :: "real list \<Rightarrow> real \<Rightarrow> real option" where
  "percentile_example xs q =
     (if xs = [] then None
      else let s = sort xs; pos = q / 100 * real (length s - 1); lo = nat \<lfloor>pos\<rfloor>;
               hi = min (lo + 1) (length s - 1)
           in Some (s ! lo + (pos - real lo) * (s ! hi - s ! lo)))"

definition ext_example :: ext where
  "ext_example = \<lparr>
     fft_align_with_im = (\<lambda>tile im. (real (length (read_names tile)), (0, 0))),
     set_aligned_rcs = (\<lambda>tile tr. tile\<lparr>aligned_rcs := Some (map (\<lambda>p. (fst p + fst tr, snd p + snd tr)) (rcs tile))\<rparr>),
     set_aligned_rcs_given_transform = (\<lambda>tile lbda theta offset.
        tile\<lparr>aligned_rcs := Some (map (\<lambda>p. (fst p + fst offset, snd p + snd offset)) (rcs tile)),
             rotation := Some theta\<rparr>),
     set_correlation = (\<lambda>tile im. tile),
     set_snr_with_control_corr = (\<lambda>tile cc. tile),
     KDTree = kdtree_example,
     percentile = percentile_example,
     lstsq = (\<lambda>A b. Some (1, 0, 0, 0))\<rparr>"

definition tile_example :: FastqTileRCs where
  "tile_example = \<lparr>key = ''lane1tile2101'',
     read_names = [''r0'', ''r1'', ''r2'', ''r3'', ''r4'', ''r5''],
     rcs = [(1, 2), (8, 19), (8, 8), (15, 2), (15, 4), (25, 3)],
     aligned_rcs = Some [(1, 2), (8, 19), (8, 8), (15, 2), (15, 4), (25, 3)],
     rotation = Some 0, snr = None\<rparr>"

definition image_example :: image_data where
  "image_example = \<lparr>image = \<lparr>shape = (20, 20), pixel = (\<lambda>r c. 0)\<rparr>, um_per_pixel = 4 / 15, fft = None\<rparr>"

definition aligner_example :: FastqImageAligner where
  "aligner_example = \<lparr>fastq_tiles = [(''lane1tile2101'', tile_example)],
     microns_per_pixel = 4 / 15, image_data = Some image_example, fq_w = 935, control_corr = 0,
     non_mutual_hits = {}, mutual_hits = {}, bad_mutual_hits = {}, good_mutual_hits = {},
     exclusive_hits = {}, hitting_tiles = [''lane1tile2101''],
     clusters = Some [(1, 1), (8, 8), (15, 1)],
     fq_im_scaled_dims = Some (12, 12), rcs_in_frame = [], aligned_rcs_in_frame = []\<rparr>"



definition rough_tile :: "string \<Rightarrow> nat \<Rightarrow> FastqTileRCs" where
  "rough_tile k n = \<lparr>key = k, read_names = replicate n ''read'', rcs = replicate n (0, 0),
     aligned_rcs = None, rotation = None, snr = None\<rparr>"

definition rough_example :: FastqImageAligner where
  "rough_example = \<lparr>fastq_tiles =
       [(''lane1tile2101'', rough_tile ''lane1tile2101'' 6),
        (''lane1tile2102'', rough_tile ''lane1tile2102'' 2),
        (''lane1tile1101'', rough_tile ''lane1tile1101'' 3),
        (''lane1tile1102'', rough_tile ''lane1tile1102'' 1),
        (''lane1tile1103'', rough_tile ''lane1tile1103'' 4)],
     microns_per_pixel = 4 / 15, image_data = Some image_example, fq_w = 935, control_corr = 0,
     non_mutual_hits = {}, mutual_hits = {}, bad_mutual_hits = {}, good_mutual_hits = {},
     exclusive_hits = {}, hitting_tiles = [],
     clusters = Some [(1, 1), (8, 8), (15, 1)],
     fq_im_scaled_dims = Some (12, 12), rcs_in_frame = [], aligned_rcs_in_frame = []\<rparr>"

definition stream_example :: FastqImageAligner where
  "stream_example = aligner_example\<lparr>
     fastq_tiles := [(''lane1tile2101'', tile_example),
                     (''lane1tile2102'', rough_tile ''lane1tile2102'' 2)],
     hitting_tiles := [''lane1tile2101'', ''lane1tile2102'']\<rparr>"

definition frame_example :: FastqImageAligner where
  "frame_example = aligner_example\<lparr>
     rcs_in_frame := map (Pair ''lane1tile2101'') [(1, 2), (8, 19), (8, 8), (15, 2), (15, 4)],
     aligned_rcs_in_frame := [(1, 2), (8, 19), (8, 8), (15, 2), (15, 4)]\<rparr>"

section \<open>Properties of the image surface\<close>

lemma bind_Inr [simp]: "bind (Inr x) f = f x"
  by (simp add: bind_def)

lemma bind_Inl [simp]: "bind (Inl e) f = Inl e"
  by (simp add: bind_def)










lemma np2_from_pow: "p = 2 ^ k \<Longrightarrow> \<exists>j. np2_from p x = 2 ^ j"
proof (induction p x arbitrary: k rule: np2_from.induct)
  case (1 p x)
  show ?case
  proof (cases "x \<le> p \<or> p = 0")
    case True
    then show ?thesis using 1(2) by auto
  next
    case False
    have "2 * p = 2 ^ Suc k" using 1(2) by simp
    from 1(1)[OF False this] False show ?thesis by simp
  qed
qed

lemma np2_from_ge: "0 < p \<Longrightarrow> x \<le> np2_from p x"
proof (induction p x rule: np2_from.induct)
  case (1 p x)
  show ?case
  proof (cases "x \<le> p \<or> p = 0")
    case True
    then show ?thesis using 1(2) by auto
  next
    case False
    then have "0 < 2 * p" by simp
    from 1(1)[OF False this] False show ?thesis by simp
  qed
qed

lemma np2_from_least: "p = 2 ^ k \<Longrightarrow> x \<le> 2 ^ j \<Longrightarrow> k \<le> j \<Longrightarrow> np2_from p x \<le> 2 ^ j"
proof (induction p x arbitrary: k rule: np2_from.induct)
  case (1 p x)
  show ?case
  proof (cases "x \<le> p \<or> p = 0")
    case True
    then show ?thesis using 1(2-4) by (auto simp: power_increasing)
  next
    case False
    have p2: "2 * p = 2 ^ Suc k" using 1(2) by simp
    have "k \<noteq> j" using False 1(2,3) by auto
    then have "Suc k \<le> j" using 1(4) by simp
    from 1(1)[OF False p2 1(3) this] False show ?thesis by simp
  qed
qed

lemma next_power_of_2_pow: "\<exists>j. next_power_of_2 x = 2 ^ j"
  unfolding next_power_of_2_def using np2_from_pow[of 1 0 x] by simp

lemma next_power_of_2_ge: "x \<le> next_power_of_2 x"
  unfolding next_power_of_2_def by (rule np2_from_ge) simp

lemma next_power_of_2_least: "x \<le> 2 ^ j \<Longrightarrow> next_power_of_2 x \<le> 2 ^ j"
  unfolding next_power_of_2_def using np2_from_least[of 1 0 x j] by simp

lemma next_power_of_2_mono: "x \<le> y \<Longrightarrow> next_power_of_2 x \<le> next_power_of_2 y"
proof -
  assume xy: "x \<le> y"
  obtain j where j: "next_power_of_2 y = 2 ^ j" using next_power_of_2_pow by blast
  have "x \<le> 2 ^ j" using xy next_power_of_2_ge[of y] j by simp
  then show ?thesis using next_power_of_2_least j by simp
qed

lemma max_next_power_of_2: "max (next_power_of_2 x) (next_power_of_2 y) = next_power_of_2 (max x y)"
proof (cases "x \<le> y")
  case True
  then show ?thesis using next_power_of_2_mono[OF True] by (simp add: max_def)
next
  case False
  then have "y \<le> x" by simp
  from next_power_of_2_mono[OF this] False show ?thesis by (simp add: max_def)
qed

lemma padded_image_Inr:
  "\<exists>P. padded_image self (ph, pw) = Inr P
     \<and> shape P = (next_power_of_2 (max (ph + fst (shape (image self))) (pw + snd (shape (image self)))),
                  next_power_of_2 (max (ph + fst (shape (image self))) (pw + snd (shape (image self)))))"
proof -
  define h where "h = fst (shape (image self))"
  define w where "w = snd (shape (image self))"
  define d where "d = next_power_of_2 (max (ph + h) (pw + w))"
  have ge: "max (ph + h) (pw + w) \<le> d" unfolding d_def by (rule next_power_of_2_ge)
  define P where "P = \<lparr>shape = (nat (int ph) + h + nat (int d - int (ph + h)),
                            nat (int pw) + w + nat (int d - int (pw + w))),
               pixel = (\<lambda>r c. if nat (int ph) \<le> r \<and> r < nat (int ph) + h
                                   \<and> nat (int pw) \<le> c \<and> c < nat (int pw) + w
                                then pixel (image self) (r - nat (int ph)) (c - nat (int pw)) else 0)\<rparr>"
  have shP: "shape P = (d, d)" using ge unfolding P_def by (auto simp: max_def split: if_splits)
  have pad: "np_pad (image self) ((int ph, int d - int (ph + h)), (int pw, int d - int (pw + w))) = Inr P"
    using ge unfolding np_pad_def P_def h_def w_def by (auto simp: Let_def)
  have "padded_image self (ph, pw) = Inr P"
    unfolding padded_image_def Let_def using pad shP
    by (simp add: max_next_power_of_2 d_def[symmetric] h_def[symmetric] w_def[symmetric] check_square_def)
  then show ?thesis using shP unfolding d_def h_def w_def by blast
qed

lemma set_fft_Inr: "\<exists>P. set_fft im dims = Inr (im\<lparr>fft := Some (fft2 P)\<rparr>)"
proof -
  obtain P where "padded_image im (fst dims, snd dims) = Inr P" using padded_image_Inr by blast
  then show ?thesis by (auto simp: set_fft_def)
qed

text \<open>
  C6. For an image of shape \<open>(h, w)\<close> and a padding \<open>(ph, pw)\<close>, \<open>set_fft\<close> succeeds and
  the padded array, and so its transform, is a square whose side is the smallest power of
  two that is at least \<open>max (h + ph) (w + pw)\<close>; the guard of \<open>set_fft\<close> answers any other
  shape with a value error.
\<close>

theorem set_fft_square:
  assumes sh: "shape (image self) = (h, w)"
  shows "\<exists>d k P. d = 2 ^ k \<and> max (h + ph) (w + pw) \<le> d
           \<and> (\<forall>j. max (h + ph) (w + pw) \<le> 2 ^ j \<longrightarrow> d \<le> 2 ^ j)
           \<and> padded_image self (ph, pw) = Inr P \<and> shape P = (d, d)
           \<and> set_fft self (ph, pw) = Inr (self\<lparr>fft := Some (fft2 P)\<rparr>)
           \<and> cshape (fft2 P) = (d, d)
           \<and> (\<forall>Q n. shape Q \<noteq> (n, n) \<longrightarrow> (\<exists>msg. check_square Q n = Inl (ValueError msg)))"
proof -
  define d where "d = next_power_of_2 (max (ph + h) (pw + w))"
  obtain k where k: "d = 2 ^ k" unfolding d_def using next_power_of_2_pow by blast
  have ge: "max (ph + h) (pw + w) \<le> d" unfolding d_def by (rule next_power_of_2_ge)
  have least: "\<forall>j. max (ph + h) (pw + w) \<le> 2 ^ j \<longrightarrow> d \<le> 2 ^ j"
    unfolding d_def using next_power_of_2_least by blast
  from padded_image_Inr[of self ph pw] obtain P where
    pi: "padded_image self (ph, pw) = Inr P" and shP: "shape P = (d, d)"
    unfolding d_def by (auto simp: sh)
  have sf: "set_fft self (ph, pw) = Inr (self\<lparr>fft := Some (fft2 P)\<rparr>)"
    unfolding set_fft_def by (simp add: pi)
  have cs: "cshape (fft2 P) = (d, d)" by (simp add: fft2_def shP Let_def)
  have g: "\<forall>Q n. shape Q \<noteq> (n, n) \<longrightarrow> (\<exists>msg. check_square Q n = Inl (ValueError msg))"
    by (simp add: check_square_def)
  show ?thesis using k ge least pi shP sf cs g by (auto simp: add.commute)
qed

theorem set_fft_square_witness:
  "shape (image image_example) = (20, 20)
     \<and> (\<exists>P. padded_image image_example (12, 12) = Inr P \<and> shape P = (32, 32)
           \<and> set_fft image_example (12, 12) = Inr (image_example\<lparr>fft := Some (fft2 P)\<rparr>)
           \<and> cshape (fft2 P) = (32, 32))"
proof -
  have sh: "shape (image image_example) = (20, 20)" by (simp add: image_example_def)
  from set_fft_square[OF sh, of 12 12]
  obtain d k P where d: "d = 2 ^ k" and ge: "max (20 + 12) (20 + 12) \<le> d"
    and least: "\<forall>j. max (20 + 12) (20 + 12) \<le> (2::nat) ^ j \<longrightarrow> d \<le> 2 ^ j"
    and P: "padded_image image_example (12, 12) = Inr P" "shape P = (d, d)"
      "set_fft image_example (12, 12) = Inr (image_example\<lparr>fft := Some (fft2 P)\<rparr>)"
      "cshape (fft2 P) = (d, d)"
    by blast
  have "max (20 + 12) (20 + 12) \<le> (2::nat) ^ 5" by simp
  with least have "d \<le> 2 ^ 5" by blast
  with ge have "d = 32" by simp
  with P sh show ?thesis by auto
qed

section \<open>Properties of rough alignment\<close>

lemma map_of_put_tile:
  "map_of (fastq_tiles (put_tile k t self)) k' =
     (if k' = k then (if k \<in> fst ` set (fastq_tiles self) then Some t else None)
      else map_of (fastq_tiles self) k')"
proof -
  have "map_of (map (\<lambda>kt. if fst kt = k then (k, t) else kt) xs) k' =
     (if k' = k then (if k \<in> fst ` set xs then Some t else None) else map_of xs k')" for xs
    by (induction xs) (auto simp: rev_image_eqI)
  then show ?thesis by (simp add: put_tile_def)
qed

lemma put_tile_fields [simp]:
  "control_corr (put_tile k t self) = control_corr self"
  "image_data (put_tile k t self) = image_data self"
  "hitting_tiles (put_tile k t self) = hitting_tiles self"
  "clusters (put_tile k t self) = clusters self"
  by (simp_all add: put_tile_def)

lemma get_tile_Inr: "get_tile self k = Inr t \<longleftrightarrow> map_of (fastq_tiles self) k = Some t"
  by (simp add: get_tile_def split: option.splits)

lemma hit_step_Inr:
  assumes "hit_step E snr_thresh k self = Inr self'" and "image_data self = Some im"
  shows "\<exists>t. map_of (fastq_tiles self) k = Some t
           \<and> hitting_tiles self' = hitting_tiles self @
                (if fst (fft_align_with_im E t im) > snr_thresh * control_corr self then [k] else [])
           \<and> control_corr self' = control_corr self \<and> image_data self' = image_data self
           \<and> (\<forall>k'. k' \<noteq> k \<longrightarrow> map_of (fastq_tiles self') k' = map_of (fastq_tiles self) k')"
proof (cases "get_tile self k")
  case (Inl e)
  then show ?thesis using assms by (simp add: hit_step_def)
next
  case (Inr t)
  then have m: "map_of (fastq_tiles self) k = Some t" by (simp add: get_tile_Inr)
  show ?thesis
    using assms Inr m
    by (auto simp: hit_step_def attr_def Let_def map_of_put_tile split: if_splits)
qed

lemma hit_loop_Inr:
  assumes "hit_loop E snr_thresh ks self = Inr self'" and "distinct ks"
    and "image_data self = Some im"
  shows "hitting_tiles self' = hitting_tiles self @
           filter (\<lambda>k. \<exists>t. map_of (fastq_tiles self) k = Some t
                     \<and> fst (fft_align_with_im E t im) > snr_thresh * control_corr self) ks
         \<and> control_corr self' = control_corr self \<and> image_data self' = image_data self"
  using assms
proof (induction ks arbitrary: self)
  case Nil
  then show ?case by simp
next
  case (Cons k ks)
  from Cons.prems(1) obtain s1 where s1: "hit_step E snr_thresh k self = Inr s1"
    and rest: "hit_loop E snr_thresh ks s1 = Inr self'"
    by (cases "hit_step E snr_thresh k self") auto
  from hit_step_Inr[OF s1 Cons.prems(3)] obtain t where
    t: "map_of (fastq_tiles self) k = Some t"
    and h1: "hitting_tiles s1 = hitting_tiles self @
                (if fst (fft_align_with_im E t im) > snr_thresh * control_corr self then [k] else [])"
    and c1: "control_corr s1 = control_corr self" and i1: "image_data s1 = image_data self"
    and m1: "\<forall>k'. k' \<noteq> k \<longrightarrow> map_of (fastq_tiles s1) k' = map_of (fastq_tiles self) k'"
    by blast
  have d: "distinct ks" and nk: "k \<notin> set ks" using Cons.prems(2) by auto
  have i1': "image_data s1 = Some im" using i1 Cons.prems(3) by simp
  from Cons.IH[OF rest d i1'] have
    ih: "hitting_tiles self' = hitting_tiles s1 @
           filter (\<lambda>k. \<exists>t. map_of (fastq_tiles s1) k = Some t
                     \<and> fst (fft_align_with_im E t im) > snr_thresh * control_corr s1) ks"
    and c2: "control_corr self' = control_corr s1" and i2: "image_data self' = image_data s1"
    by auto
  have f: "filter (\<lambda>k. \<exists>t. map_of (fastq_tiles s1) k = Some t
                     \<and> fst (fft_align_with_im E t im) > snr_thresh * control_corr s1) ks
         = filter (\<lambda>k. \<exists>t. map_of (fastq_tiles self) k = Some t
                     \<and> fst (fft_align_with_im E t im) > snr_thresh * control_corr self) ks"
    using nk m1 c1 by (intro filter_cong) auto
  show ?case using ih h1 f t c1 c2 i1 i2 by auto
qed

lemma foldl_control_step:
  "foldl (control_step E im) c ts = Max (insert c ((\<lambda>t. fst (fft_align_with_im E t im)) ` set ts))"
proof (induction ts arbitrary: c)
  case Nil
  then show ?case by simp
next
  case (Cons t ts)
  have "control_step E im c t = max c (fst (fft_align_with_im E t im))"
    by (simp add: control_step_def Let_def max_def)
  then have "foldl (control_step E im) c (t # ts)
      = Max (insert (max c (fst (fft_align_with_im E t im))) ((\<lambda>t. fst (fft_align_with_im E t im)) ` set ts))"
    using Cons.IH by simp
  also have "\<dots> = Max (insert c ((\<lambda>t. fst (fft_align_with_im E t im)) ` set (t # ts)))"
  proof (cases "set ts = {}")
    case True
    then show ?thesis by (simp add: max.commute)
  next
    case False
    then show ?thesis by (simp add: max.assoc insert_commute)
  qed
  finally show ?case .
qed

lemma find_hitting_tiles_Inr:
  assumes "find_hitting_tiles E side1 keys snr_thresh self = Inr self'"
  shows "\<exists>im0 dims im. image_data self = Some im0 \<and> fq_im_scaled_dims self = Some dims
     \<and> set_fft im0 dims = Inr im
     \<and> hit_loop E snr_thresh (filter (\<lambda>key. key \<in> fst ` set (fastq_tiles self)) keys)
         (self\<lparr>image_data := Some im,
               control_corr := foldl (control_step E im) 0
                 (map snd (take 2 (sort_key (\<lambda>kt. - int (length (read_names (snd kt))))
                     (filter (\<lambda>kt. fst kt \<notin> set keys) (fastq_tiles self))))),
               hitting_tiles := []\<rparr>) = Inr self'"
proof -
  have eq: "filter (\<lambda>kt. fst kt \<notin> set (filter (\<lambda>key. key \<in> fst ` set (fastq_tiles self)) keys)) (fastq_tiles self)
      = filter (\<lambda>kt. fst kt \<notin> set keys) (fastq_tiles self)"
    by (intro filter_cong) auto
  show ?thesis
    using assms unfolding find_hitting_tiles_def Let_def eq
    by (auto simp: attr_def bind_def split: option.splits sum.splits)
qed

lemma keys_put_tile: "fst ` set (fastq_tiles (put_tile k t self)) = fst ` set (fastq_tiles self)"
proof -
  have "map fst (map (\<lambda>kt. if fst kt = k then (k, t) else kt) xs) = map fst xs" for xs
    by (induction xs) auto
  then have "set (map fst (fastq_tiles (put_tile k t self))) = set (map fst (fastq_tiles self))"
    by (simp add: put_tile_def)
  then show ?thesis by simp
qed

lemma hit_step_succeeds:
  assumes "k \<in> fst ` set (fastq_tiles self)" and "image_data self = Some im"
  shows "\<exists>s. hit_step E snr_thresh k self = Inr s
           \<and> fst ` set (fastq_tiles s) = fst ` set (fastq_tiles self) \<and> image_data s = Some im"
proof -
  from assms(1) obtain t where "map_of (fastq_tiles self) k = Some t"
    by (metis map_of_eq_None_iff not_Some_eq)
  then show ?thesis using assms(2)
    by (auto simp: hit_step_def get_tile_def attr_def Let_def keys_put_tile)
qed

lemma hit_loop_succeeds:
  assumes "set ks \<subseteq> fst ` set (fastq_tiles self)" and "image_data self = Some im"
  shows "\<exists>s. hit_loop E snr_thresh ks self = Inr s"
  using assms
proof (induction ks arbitrary: self)
  case Nil
  then show ?case by simp
next
  case (Cons k ks)
  then have "k \<in> fst ` set (fastq_tiles self)" by simp
  from hit_step_succeeds[OF this Cons.prems(2)] obtain s1 where
    s1: "hit_step E snr_thresh k self = Inr s1"
    and k1: "fst ` set (fastq_tiles s1) = fst ` set (fastq_tiles self)"
    and i1: "image_data s1 = Some im" by blast
  have "set ks \<subseteq> fst ` set (fastq_tiles s1)" using Cons.prems(1) k1 by simp
  from Cons.IH[OF this i1] s1 show ?case by simp
qed

lemma find_hitting_tiles_succeeds:
  assumes "image_data self = Some im0" and "fq_im_scaled_dims self = Some dims"
  shows "\<exists>s. find_hitting_tiles E side1 keys snr_thresh self = Inr s"
proof -
  obtain P where P: "set_fft im0 dims = Inr (im0\<lparr>fft := Some (fft2 P)\<rparr>)"
    using set_fft_Inr by blast
  show ?thesis
    unfolding find_hitting_tiles_def Let_def
    using assms P
    by (simp add: attr_def) (rule hit_loop_succeeds[where im = "im0\<lparr>fft := Some (fft2 P)\<rparr>"], auto)
qed

lemma hit_step_frame:
  assumes "hit_step E snr_thresh k self = Inr self'"
  shows "control_corr self' = control_corr self \<and> image_data self' = image_data self"
  using assms
  by (auto simp: hit_step_def bind_def attr_def Let_def split: sum.splits option.splits if_splits)

lemma hit_loop_frame:
  assumes "hit_loop E snr_thresh ks self = Inr self'"
  shows "control_corr self' = control_corr self \<and> image_data self' = image_data self"
  using assms
proof (induction ks arbitrary: self)
  case Nil
  then show ?case by simp
next
  case (Cons k ks)
  from Cons.prems obtain s1 where s1: "hit_step E snr_thresh k self = Inr s1"
    and rest: "hit_loop E snr_thresh ks s1 = Inr self'"
    by (cases "hit_step E snr_thresh k self") auto
  from hit_step_frame[OF s1] Cons.IH[OF rest] show ?case by simp
qed

lemma sorted_take_drop:
  assumes "sorted (map f xs)" "x \<in> set (take n xs)" "y \<in> set (drop n xs)"
  shows "f x \<le> f y"
proof -
  have "sorted (map f (take n xs) @ map f (drop n xs))"
    using assms(1) by (simp flip: map_append)
  then show ?thesis using assms(2,3) by (auto simp: sorted_append)
qed

lemma find_hitting_tiles_control_fold:
  assumes "find_hitting_tiles E side1 possible_tile_keys snr_thresh self = Inr self'"
  shows "\<exists>im. image_data self' = Some im
     \<and> control_corr self' = foldl (control_step E im) 0
          (map snd (take 2 (sort_key (\<lambda>kt. - int (length (read_names (snd kt))))
             (filter (\<lambda>kt. fst kt \<notin> set possible_tile_keys) (fastq_tiles self)))))"
proof -
  from find_hitting_tiles_Inr[OF assms(1)] obtain im where
    loop: "hit_loop E snr_thresh (filter (\<lambda>key. key \<in> fst ` set (fastq_tiles self)) possible_tile_keys)
         (self\<lparr>image_data := Some im,
               control_corr := foldl (control_step E im) 0
                 (map snd (take 2 (sort_key (\<lambda>kt. - int (length (read_names (snd kt))))
                     (filter (\<lambda>kt. fst kt \<notin> set possible_tile_keys) (fastq_tiles self))))),
               hitting_tiles := []\<rparr>) = Inr self'"
    by blast
  from hit_loop_frame[OF loop] show ?thesis by auto
qed

lemma find_hitting_tiles_hitting:
  assumes "find_hitting_tiles E side1 possible_tile_keys snr_thresh self = Inr self'"
    and "distinct possible_tile_keys"
  shows "\<exists>im. image_data self' = Some im
           \<and> hitting_tiles self' =
               filter (\<lambda>k. \<exists>t. map_of (fastq_tiles self) k = Some t
                        \<and> fst (fft_align_with_im E t im) > snr_thresh * control_corr self')
                 possible_tile_keys"
proof -
  from find_hitting_tiles_Inr[OF assms(1)] obtain im where
    loop: "hit_loop E snr_thresh (filter (\<lambda>key. key \<in> fst ` set (fastq_tiles self)) possible_tile_keys)
         (self\<lparr>image_data := Some im,
               control_corr := foldl (control_step E im) 0
                 (map snd (take 2 (sort_key (\<lambda>kt. - int (length (read_names (snd kt))))
                     (filter (\<lambda>kt. fst kt \<notin> set possible_tile_keys) (fastq_tiles self))))),
               hitting_tiles := []\<rparr>) = Inr self'"
    by blast
  have d: "distinct (filter (\<lambda>key. key \<in> fst ` set (fastq_tiles self)) possible_tile_keys)"
    using assms(2) by simp
  from hit_loop_Inr[OF loop d, of im]
  have h: "hitting_tiles self' =
        filter (\<lambda>k. \<exists>t. map_of (fastq_tiles self) k = Some t
                     \<and> fst (fft_align_with_im E t im) > snr_thresh * control_corr self')
          (filter (\<lambda>key. key \<in> fst ` set (fastq_tiles self)) possible_tile_keys)"
    and i: "image_data self' = Some im"
    by auto
  have "filter (\<lambda>k. \<exists>t. map_of (fastq_tiles self) k = Some t
                     \<and> fst (fft_align_with_im E t im) > snr_thresh * control_corr self')
          (filter (\<lambda>key. key \<in> fst ` set (fastq_tiles self)) possible_tile_keys)
      = filter (\<lambda>k. \<exists>t. map_of (fastq_tiles self) k = Some t
                     \<and> fst (fft_align_with_im E t im) > snr_thresh * control_corr self')
          possible_tile_keys"
    unfolding filter_filter
    by (intro filter_cong) (force dest: map_of_SomeD)+
  with h i show ?thesis by simp
qed

lemma find_hitting_tiles_side1_ignored:
  "find_hitting_tiles E True possible_tile_keys snr_thresh self
     = find_hitting_tiles E False possible_tile_keys snr_thresh self"
  by (simp add: find_hitting_tiles_def Let_def)

lemma rough_example_fields:
  "image_data rough_example = Some image_example"
  "fq_im_scaled_dims rough_example = Some (12, 12)"
  by (simp_all add: rough_example_def)

text \<open>
  C1 (the code does otherwise). With \<open>side1\<close> set and the candidate key
  \<open>lane1tile2101\<close>, the claim has the side-1 variant \<open>lane1tile1101\<close> as the only
  candidate. In the code the list built under \<open>side1\<close> is overwritten by the list of the
  keys as given: whatever the correlations are, \<open>lane1tile1101\<close> is never a hitting tile
  (it is left among the control tiles), and \<open>lane1tile2101\<close> is one in the example engine.
\<close>

theorem find_hitting_tiles_side1_failing_input:
  "(\<forall>E snr_thresh. \<exists>self'.
       find_hitting_tiles E True [''lane1tile2101''] snr_thresh rough_example = Inr self'
       \<and> ''lane1tile1101'' \<notin> set (hitting_tiles self'))
   \<and> (\<exists>self'. find_hitting_tiles ext_example True [''lane1tile2101''] (6 / 5) rough_example = Inr self'
         \<and> hitting_tiles self' = [''lane1tile2101''])"
proof -
  have d: "distinct [''lane1tile2101'']" by simp
  have a: "\<exists>self'. find_hitting_tiles E True [''lane1tile2101''] snr_thresh rough_example = Inr self'
       \<and> ''lane1tile1101'' \<notin> set (hitting_tiles self')" for E snr_thresh
  proof -
    from find_hitting_tiles_succeeds[OF rough_example_fields] obtain s where
      s: "find_hitting_tiles E True [''lane1tile2101''] snr_thresh rough_example = Inr s" by blast
    from find_hitting_tiles_hitting[OF s d] obtain P where
      "hitting_tiles s = filter P [''lane1tile2101'']" by blast
    then have "set (hitting_tiles s) \<subseteq> set [''lane1tile2101'']" by (metis filter_is_subset)
    then have "''lane1tile1101'' \<notin> set (hitting_tiles s)" by auto
    with s show ?thesis by blast
  qed
  have b: "\<exists>self'. find_hitting_tiles ext_example True [''lane1tile2101''] (6 / 5) rough_example = Inr self'
         \<and> hitting_tiles self' = [''lane1tile2101'']"
  proof -
    from find_hitting_tiles_succeeds[OF rough_example_fields] obtain s where
      s: "find_hitting_tiles ext_example True [''lane1tile2101''] (6 / 5) rough_example = Inr s"
      by blast
    from find_hitting_tiles_control_fold[OF s] have cc: "control_corr s = 4"
      by (auto simp: rough_example_def rough_tile_def control_step_def ext_example_def)
    from find_hitting_tiles_hitting[OF s d] have "hitting_tiles s = [''lane1tile2101'']"
      unfolding cc by (auto simp: rough_example_def rough_tile_def ext_example_def)
    with s show ?thesis by blast
  qed
  from a b show ?thesis by blast
qed

text \<open>
  C3. When \<open>find_hitting_tiles\<close> returns, the hitting tiles are, in order, exactly the
  candidate keys of the catalogue whose peak correlation with the prepared image is
  strictly above \<open>snr_thresh\<close> times the control correlation. (The candidate keys are
  distinct, so that each tile is correlated as it was on entry.)
\<close>

theorem find_hitting_tiles_hits:
  assumes "find_hitting_tiles E side1 possible_tile_keys snr_thresh self = Inr self'"
    and "distinct possible_tile_keys"
  shows "\<exists>im. image_data self' = Some im
           \<and> hitting_tiles self' =
               filter (\<lambda>k. \<exists>t. map_of (fastq_tiles self) k = Some t
                        \<and> fst (fft_align_with_im E t im) > snr_thresh * control_corr self')
                 possible_tile_keys"
  by (rule find_hitting_tiles_hitting[OF assms])

theorem find_hitting_tiles_hits_witness:
  "distinct [''lane1tile2101'', ''lane1tile2102'', ''lane1tile2103'']
   \<and> (\<exists>self'. find_hitting_tiles ext_example False
                  [''lane1tile2101'', ''lane1tile2102'', ''lane1tile2103''] (6 / 5) rough_example = Inr self'
         \<and> control_corr self' = 4 \<and> hitting_tiles self' = [''lane1tile2101''])"
proof -
  have d: "distinct [''lane1tile2101'', ''lane1tile2102'', ''lane1tile2103'']" by simp
  from find_hitting_tiles_succeeds[OF rough_example_fields] obtain s where
    s: "find_hitting_tiles ext_example False
          [''lane1tile2101'', ''lane1tile2102'', ''lane1tile2103''] (6 / 5) rough_example = Inr s"
    by blast
  from find_hitting_tiles_control_fold[OF s] have cc: "control_corr s = 4"
    by (auto simp: rough_example_def rough_tile_def control_step_def ext_example_def)
  from find_hitting_tiles_hits[OF s d] have "hitting_tiles s = [''lane1tile2101'']"
    unfolding cc by (auto simp: rough_example_def rough_tile_def ext_example_def)
  with s cc d show ?thesis by blast
qed

text \<open>
  C4. When \<open>find_hitting_tiles\<close> returns, the control correlation is the greatest of 0 and
  the peak correlations of the control tiles: at most two tiles of the catalogue outside
  the candidate keys, two when there are that many, none of the other such tiles having
  more reads than a control tile.
\<close>

theorem find_hitting_tiles_control_corr:
  assumes "find_hitting_tiles E side1 possible_tile_keys snr_thresh self = Inr self'"
  shows "\<exists>im control_tiles others. image_data self' = Some im
     \<and> mset (control_tiles @ others)
         = mset (filter (\<lambda>kt. fst kt \<notin> set possible_tile_keys) (fastq_tiles self))
     \<and> length control_tiles = min 2 (length (control_tiles @ others))
     \<and> (\<forall>c\<in>set control_tiles. \<forall>u\<in>set others.
           length (read_names (snd u)) \<le> length (read_names (snd c)))
     \<and> control_corr self'
         = Max (insert 0 ((\<lambda>kt. fst (fft_align_with_im E (snd kt) im)) ` set control_tiles))"
proof -
  define srt where "srt = sort_key (\<lambda>kt. - int (length (read_names (snd kt))))
                     (filter (\<lambda>kt. fst kt \<notin> set possible_tile_keys) (fastq_tiles self))"
  from find_hitting_tiles_Inr[OF assms(1)] obtain im where
    loop: "hit_loop E snr_thresh (filter (\<lambda>key. key \<in> fst ` set (fastq_tiles self)) possible_tile_keys)
         (self\<lparr>image_data := Some im,
               control_corr := foldl (control_step E im) 0 (map snd (take 2 srt)),
               hitting_tiles := []\<rparr>) = Inr self'"
    unfolding srt_def by blast
  from hit_loop_frame[OF loop]
  have cc: "control_corr self' = foldl (control_step E im) 0 (map snd (take 2 srt))"
    and i: "image_data self' = Some im"
    by auto
  have m: "mset (take 2 srt @ drop 2 srt)
         = mset (filter (\<lambda>kt. fst kt \<notin> set possible_tile_keys) (fastq_tiles self))"
    by (simp add: srt_def)
  have l: "length (take 2 srt) = min 2 (length (take 2 srt @ drop 2 srt))"
    by simp
  have s: "sorted (map (\<lambda>kt. - int (length (read_names (snd kt)))) srt)"
    by (simp add: srt_def)
  have o: "\<forall>c\<in>set (take 2 srt). \<forall>u\<in>set (drop 2 srt).
           length (read_names (snd u)) \<le> length (read_names (snd c))"
    using sorted_take_drop[OF s] by fastforce
  have mx: "control_corr self'
         = Max (insert 0 ((\<lambda>kt. fst (fft_align_with_im E (snd kt) im)) ` set (take 2 srt)))"
    unfolding cc foldl_control_step by (simp add: image_image)
  from i m l o mx show ?thesis by blast
qed

theorem find_hitting_tiles_control_corr_witness:
  "\<exists>self'. find_hitting_tiles ext_example False
              [''lane1tile2101'', ''lane1tile2102'', ''lane1tile2103''] (6 / 5) rough_example = Inr self'
     \<and> (\<exists>control_tiles others.
           mset (control_tiles @ others)
             = mset [(''lane1tile1101'', rough_tile ''lane1tile1101'' 3),
                     (''lane1tile1102'', rough_tile ''lane1tile1102'' 1),
                     (''lane1tile1103'', rough_tile ''lane1tile1103'' 4)]
           \<and> length control_tiles = 2
           \<and> control_corr self' = Max (insert 0 ((\<lambda>kt. real (length (read_names (snd kt)))) ` set control_tiles)))
     \<and> control_corr self' = 4"
proof -
  from find_hitting_tiles_succeeds[OF rough_example_fields] obtain s where
    s: "find_hitting_tiles ext_example False
          [''lane1tile2101'', ''lane1tile2102'', ''lane1tile2103''] (6 / 5) rough_example = Inr s"
    by blast
  from find_hitting_tiles_control_fold[OF s] have cc: "control_corr s = 4"
    by (auto simp: rough_example_def rough_tile_def control_step_def ext_example_def)
  from find_hitting_tiles_control_corr[OF s] obtain im control_tiles others where
    m: "mset (control_tiles @ others)
         = mset (filter (\<lambda>kt. fst kt \<notin> set [''lane1tile2101'', ''lane1tile2102'', ''lane1tile2103''])
             (fastq_tiles rough_example))"
    and l: "length control_tiles = min 2 (length (control_tiles @ others))"
    and mx: "control_corr s
         = Max (insert 0 ((\<lambda>kt. fst (fft_align_with_im ext_example (snd kt) im)) ` set control_tiles))"
    by blast
  have m': "mset (control_tiles @ others)
             = mset [(''lane1tile1101'', rough_tile ''lane1tile1101'' 3),
                     (''lane1tile1102'', rough_tile ''lane1tile1102'' 1),
                     (''lane1tile1103'', rough_tile ''lane1tile1103'' 4)]"
    using m by (simp add: rough_example_def)
  from arg_cong[OF m', of size] have "length (control_tiles @ others) = 3" by simp
  with l have l': "length control_tiles = 2" by simp
  have mx': "control_corr s = Max (insert 0 ((\<lambda>kt. real (length (read_names (snd kt)))) ` set control_tiles))"
    using mx by (simp add: ext_example_def)
  from s m' l' mx' cc show ?thesis by blast
qed

section \<open>Properties of the output stream\<close>

lemma set_tile_lines:
  "set (tile_lines im_shape names al) =
     {(names ! i, fst (al ! i), snd (al ! i)) | i. i < length names \<and> i < length al \<and> in_bounds im_shape (al ! i)}"
  by (auto simp: tile_lines_def set_zip image_iff)

lemma read_names_rcs_loop_set:
  assumes "\<forall>k\<in>set ks. \<exists>t. map_of (fastq_tiles self) k = Some t
              \<and> (rotation t \<noteq> None \<longrightarrow> aligned_rcs t \<noteq> None)"
  shows "snd (read_names_rcs_loop im_shape self ks) = None
     \<and> set (fst (read_names_rcs_loop im_shape self ks)) =
         {x. \<exists>k\<in>set ks. \<exists>t r al. map_of (fastq_tiles self) k = Some t \<and> rotation t = Some r
               \<and> aligned_rcs t = Some al \<and> x \<in> set (tile_lines im_shape (read_names t) al)}"
  using assms
proof (induction ks)
  case Nil
  then show ?case by simp
next
  case (Cons k ks)
  then obtain t where t: "map_of (fastq_tiles self) k = Some t"
    and ra: "rotation t \<noteq> None \<longrightarrow> aligned_rcs t \<noteq> None" by auto
  have ih: "snd (read_names_rcs_loop im_shape self ks) = None"
    "set (fst (read_names_rcs_loop im_shape self ks)) =
         {x. \<exists>k\<in>set ks. \<exists>t r al. map_of (fastq_tiles self) k = Some t \<and> rotation t = Some r
               \<and> aligned_rcs t = Some al \<and> x \<in> set (tile_lines im_shape (read_names t) al)}"
    using Cons by auto
  show ?case
  proof (cases "rotation t")
    case None
    then show ?thesis using t ih by (auto simp: get_tile_def)
  next
    case (Some r)
    with ra obtain al where al: "aligned_rcs t = Some al" by auto
    show ?thesis using t Some al ih by (auto simp: get_tile_def Let_def)
  qed
qed

text \<open>
  C9. With an image loaded, every hitting tile in the catalogue and \<open>aligned_rcs\<close> present
  on each tile that has a rotation, the stream ends without an exception, and it yields
  \<open>(name, r, c)\<close> exactly when \<open>(r, c)\<close> is inside the image bounds and is the aligned
  position, paired with its read name, of a hitting tile that has a rotation. A hitting
  tile without a rotation yields nothing and raises nothing.
\<close>

theorem read_names_rcs_yields:
  assumes "image_data self = Some im" and "shape (image im) = (h, w)"
    and "\<forall>k\<in>set (hitting_tiles self). \<exists>t. map_of (fastq_tiles self) k = Some t
              \<and> (rotation t \<noteq> None \<longrightarrow> aligned_rcs t \<noteq> None)"
  shows "snd (read_names_rcs self) = None
     \<and> ((name, r, c) \<in> set (fst (read_names_rcs self)) \<longleftrightarrow>
          0 \<le> r \<and> r < real h \<and> 0 \<le> c \<and> c < real w
          \<and> (\<exists>k\<in>set (hitting_tiles self). \<exists>t rot al i.
                map_of (fastq_tiles self) k = Some t \<and> rotation t = Some rot \<and> aligned_rcs t = Some al
                \<and> i < length (read_names t) \<and> i < length al
                \<and> name = read_names t ! i \<and> al ! i = (r, c)))"
proof -
  have rn: "read_names_rcs self = read_names_rcs_loop (h, w) self (hitting_tiles self)"
    using assms(1,2) by (simp add: read_names_rcs_def)
  from read_names_rcs_loop_set[OF assms(3), of "(h, w)"]
  have e: "snd (read_names_rcs self) = None"
    and s: "set (fst (read_names_rcs self)) =
         {x. \<exists>k\<in>set (hitting_tiles self). \<exists>t r al. map_of (fastq_tiles self) k = Some t \<and> rotation t = Some r
               \<and> aligned_rcs t = Some al \<and> x \<in> set (tile_lines (h, w) (read_names t) al)}"
    unfolding rn by auto
  have "(name, r, c) \<in> set (fst (read_names_rcs self)) \<longleftrightarrow>
          0 \<le> r \<and> r < real h \<and> 0 \<le> c \<and> c < real w
          \<and> (\<exists>k\<in>set (hitting_tiles self). \<exists>t rot al i.
                map_of (fastq_tiles self) k = Some t \<and> rotation t = Some rot \<and> aligned_rcs t = Some al
                \<and> i < length (read_names t) \<and> i < length al
                \<and> name = read_names t ! i \<and> al ! i = (r, c))"
    unfolding s set_tile_lines in_bounds_def
    by (auto simp: prod_eq_iff)
  with e show ?thesis by simp
qed


theorem read_names_rcs_yields_witness:
  "image_data stream_example = Some image_example \<and> shape (image image_example) = (20, 20)
   \<and> snd (read_names_rcs stream_example) = None
   \<and> (''r1'', 8, 19) \<in> set (fst (read_names_rcs stream_example))
   \<and> (''r5'', 25, 3) \<notin> set (fst (read_names_rcs stream_example))"
proof -
  have a: "image_data stream_example = Some image_example"
    by (simp add: stream_example_def aligner_example_def)
  have b: "shape (image image_example) = (20, 20)" by (simp add: image_example_def)
  have c: "\<forall>k\<in>set (hitting_tiles stream_example). \<exists>t. map_of (fastq_tiles stream_example) k = Some t
              \<and> (rotation t \<noteq> None \<longrightarrow> aligned_rcs t \<noteq> None)"
    by (simp add: stream_example_def tile_example_def rough_tile_def)
  have d: "\<exists>k\<in>set (hitting_tiles stream_example). \<exists>t rot al i.
                map_of (fastq_tiles stream_example) k = Some t \<and> rotation t = Some rot \<and> aligned_rcs t = Some al
                \<and> i < length (read_names t) \<and> i < length al
                \<and> ''r1'' = read_names t ! i \<and> al ! i = (8, 19)"
    by (rule bexI[where x = "''lane1tile2101''"], rule exI[where x = tile_example], rule exI[where x = 0],
        rule exI[where x = "[(1, 2), (8, 19), (8, 8), (15, 2), (15, 4), (25, 3)]"], rule exI[where x = 1])
       (simp_all add: stream_example_def tile_example_def)
  from read_names_rcs_yields[OF a b c, of "''r1''" 8 19] d
  have e: "snd (read_names_rcs stream_example) = None"
    and f: "(''r1'', 8, 19) \<in> set (fst (read_names_rcs stream_example))" by simp_all
  from read_names_rcs_yields[OF a b c, of "''r5''" 25 3]
  have g: "(''r5'', 25, 3) \<notin> set (fst (read_names_rcs stream_example))" by simp
  from a b e f g show ?thesis by simp
qed

section \<open>Properties of hit classification\<close>

lemma bind_eq_Inr: "bind m f = Inr y \<longleftrightarrow> (\<exists>x. m = Inr x \<and> f x = Inr y)"
  by (cases m) auto

lemma bind_eq_Inl: "bind m f = Inl e \<longleftrightarrow> m = Inl e \<or> (\<exists>x. m = Inr x \<and> f x = Inl e)"
  by (cases m) auto

lemma attr_Inl: "attr x = Inl e \<Longrightarrow> plain_error e"
  by (auto simp: attr_def plain_error_def split: option.splits)

lemma lib_Inl: "lib x = Inl e \<Longrightarrow> plain_error e"
  by (auto simp: lib_def plain_error_def split: option.splits)

lemma get_tile_Inl: "get_tile self k = Inl e \<Longrightarrow> plain_error e"
  by (auto simp: get_tile_def plain_error_def split: option.splits)

lemma single_hit_dist_Inl: "single_hit_dist self h = Inl e \<Longrightarrow> plain_error e"
  by (auto simp: single_hit_dist_def bind_eq_Inl plain_error_def dest: attr_Inl split: if_splits)

lemma hit_dists_Inl: "hit_dists self hs = Inl e \<Longrightarrow> plain_error e"
  by (induction hs arbitrary: e) (auto simp: bind_eq_Inl dest: single_hit_dist_Inl)

lemma hit_dists_length: "hit_dists self hs = Inr ds \<Longrightarrow> length ds = length hs"
  by (induction hs arbitrary: ds) (auto simp: bind_eq_Inr)

lemma hit_dists_single: "hit_dists self [h] = Inr ds \<longleftrightarrow> (\<exists>d. single_hit_dist self h = Inr d \<and> ds = [d])"
  by (auto simp: bind_eq_Inr)

lemma filter_by_dist_Inl: "filter_by_dist self thresh hs = Inl e \<Longrightarrow> plain_error e"
  by (induction hs arbitrary: e) (auto simp: bind_eq_Inl dest: single_hit_dist_Inl)

lemma filter_by_dist_Inr:
  "filter_by_dist self thresh hs = Inr r \<Longrightarrow>
     r = filter (\<lambda>h. \<exists>d. single_hit_dist self h = Inr d \<and> d \<le> thresh) hs"
  by (induction hs arbitrary: r) (auto simp: bind_eq_Inr)

lemma good_hit_threshold_Inl: "good_hit_threshold E self ex = Inl e \<Longrightarrow> plain_error e"
  by (auto simp: good_hit_threshold_def bind_eq_Inl plain_error_def
      dest: attr_Inl lib_Inl hit_dists_Inl split: if_splits)

lemma good_mutual_loop_subset:
  "good_mutual_loop self nm t1 t2 hs good = Inr good' \<Longrightarrow> good' \<subseteq> good \<union> set hs"
proof (induction hs arbitrary: good)
  case Nil
  then show ?case by simp
next
  case (Cons h hs)
  from Cons.prems show ?case
    by (auto simp: bind_eq_Inr split: if_splits dest!: Cons.IH)
qed

lemma good_mutual_loop_Inl:
  assumes "good_mutual_loop self nm t1 t2 hs good = Inl e"
    and "\<forall>h\<in>set hs. \<forall>d. single_hit_dist self h = Inr d \<longrightarrow> d \<le> t1 \<longrightarrow> third_wheels nm h \<noteq> []"
  shows "plain_error e"
  using assms
proof (induction hs arbitrary: good)
  case Nil
  then show ?case by simp
next
  case (Cons h hs)
  have rest: "\<forall>h\<in>set hs. \<forall>d. single_hit_dist self h = Inr d \<longrightarrow> d \<le> t1 \<longrightarrow> third_wheels nm h \<noteq> []"
    using Cons.prems(2) by simp
  show ?case
  proof (cases "single_hit_dist self h")
    case (Inl e')
    then show ?thesis using Cons.prems(1) by (auto dest: single_hit_dist_Inl)
  next
    case (Inr d)
    show ?thesis
    proof (cases "d > t1")
      case True
      then show ?thesis using Cons.prems(1) Inr Cons.IH[OF _ rest] by simp
    next
      case False
      then have tw: "third_wheels nm h \<noteq> []" using Cons.prems(2) Inr by simp
      show ?thesis
      proof (cases "hit_dists self (third_wheels nm h)")
        case (Inl e')
        then show ?thesis using Cons.prems(1) Inr False by (auto dest: hit_dists_Inl)
      next
        case tds: (Inr tds)
        from hit_dists_length[OF tds] tw have "tds \<noteq> []" by auto
        then show ?thesis using Cons.prems(1) Inr False tds Cons.IH[OF _ rest]
          by (auto split: if_splits)
      qed
    qed
  qed
qed

lemma set_list_of: "finite S \<Longrightarrow> set (list_of S) = S"
  by (simp add: list_of_def)

lemma third_wheels_nonempty:
  "finite nm \<Longrightarrow> third_wheels nm h \<noteq> [] \<longleftrightarrow> (\<exists>tup\<in>nm. fst h = fst tup \<or> snd h = snd tup)"
  by (auto simp: third_wheels_def filter_empty_conv set_list_of)

lemma finite_sym_diff: "finite A \<Longrightarrow> finite B \<Longrightarrow> finite (sym_diff A B)"
  by (simp add: sym_diff_def)

lemma exclusive_of_subset: "exclusive_of m nm \<subseteq> m"
  by (auto simp: exclusive_of_def)

lemma not_exclusive_third_wheel:
  assumes "h \<in> m" "h \<notin> exclusive_of m nm"
  shows "\<exists>tup\<in>nm. fst h = fst tup \<or> snd h = snd tup"
  using assms by (auto simp: exclusive_of_def)

lemma examined_pair_has_third_wheel:
  assumes fin: "finite A" "finite B"
    and cap: "filter_by_dist self good_thresh (list_of (exclusive_of (A \<inter> B) (sym_diff A B))) = Inr capped"
    and h: "h \<in> A \<inter> B - set capped"
    and d: "single_hit_dist self h = Inr d" "d \<le> good_thresh"
  shows "\<exists>tup\<in>sym_diff A B. fst h = fst tup \<or> snd h = snd tup"
proof -
  have fe: "finite (exclusive_of (A \<inter> B) (sym_diff A B))"
    using fin exclusive_of_subset[of "A \<inter> B" "sym_diff A B"] by (meson finite_Int finite_subset)
  have "h \<notin> exclusive_of (A \<inter> B) (sym_diff A B)"
  proof
    assume "h \<in> exclusive_of (A \<inter> B) (sym_diff A B)"
    then have "h \<in> set (list_of (exclusive_of (A \<inter> B) (sym_diff A B)))" using fe by (simp add: set_list_of)
    then have "h \<in> set capped" using filter_by_dist_Inr[OF cap] d by simp
    then show False using h by simp
  qed
  then show ?thesis using h not_exclusive_third_wheel by blast
qed

lemma classify_hits_Inr:
  assumes "classify_hits E self A B = Inr (nm, m, bad, good, ex)"
  shows "nm = sym_diff A B \<and> m = A \<inter> B \<and> ex \<subseteq> m \<and> good \<subseteq> m - ex \<and> bad = m - ex - good"
proof -
  from assms obtain thr capped where
    cap: "filter_by_dist self thr (list_of (exclusive_of (A \<inter> B) (sym_diff A B))) = Inr capped"
    and loop: "good_mutual_loop self (sym_diff A B) thr (2 * thr) (list_of (A \<inter> B - set capped)) {} = Inr good"
    and r: "nm = sym_diff A B" "m = A \<inter> B" "ex = set capped" "bad = A \<inter> B - set capped - good"
    unfolding classify_hits_def Let_def by (auto simp: bind_eq_Inr split: if_splits)
  have "set capped \<subseteq> A \<inter> B"
  proof (cases "finite (exclusive_of (A \<inter> B) (sym_diff A B))")
    case True
    then show ?thesis using filter_by_dist_Inr[OF cap] exclusive_of_subset[of "A \<inter> B" "sym_diff A B"]
      by (auto simp: set_list_of)
  next
    case False
    then have "list_of (exclusive_of (A \<inter> B) (sym_diff A B)) = []" by (simp add: list_of_def)
    then show ?thesis using filter_by_dist_Inr[OF cap] by simp
  qed
  moreover have "good \<subseteq> A \<inter> B - set capped"
  proof (cases "finite (A \<inter> B - set capped)")
    case True
    then show ?thesis using good_mutual_loop_subset[OF loop] by (simp add: set_list_of)
  next
    case False
    then have "list_of (A \<inter> B - set capped) = []" by (simp add: list_of_def)
    then show ?thesis using good_mutual_loop_subset[OF loop] by simp
  qed
  ultimately show ?thesis using r by simp
qed

lemma partition_of_categories:
  assumes "ex \<subseteq> A \<inter> B" "good \<subseteq> A \<inter> B - ex"
  shows "sym_diff A B \<union> (A \<inter> B - ex - good) \<union> good \<union> ex = A \<union> B"
    and "sym_diff A B \<inter> (A \<inter> B - ex - good) = {}"
    and "sym_diff A B \<inter> good = {}"
    and "sym_diff A B \<inter> ex = {}"
    and "(A \<inter> B - ex - good) \<inter> good = {}"
    and "(A \<inter> B - ex - good) \<inter> ex = {}"
    and "good \<inter> ex = {}"
  using assms by (auto simp: sym_diff_def)

lemma card_of_categories:
  assumes "finite A" "finite B" "ex \<subseteq> A \<inter> B" "good \<subseteq> A \<inter> B - ex"
  shows "card (sym_diff A B) + card (A \<inter> B - ex - good) + card good + card ex = card (A \<union> B)"
proof -
  have f: "finite (sym_diff A B)" "finite (A \<inter> B - ex - good)" "finite good" "finite ex"
    using assms by (auto simp: sym_diff_def intro: finite_subset[of _ "A \<inter> B"])
  note p = partition_of_categories[OF assms(3,4)]
  have "card (A \<union> B) = card (sym_diff A B \<union> (A \<inter> B - ex - good) \<union> good \<union> ex)"
    using p(1) by simp
  also have "\<dots> = card (sym_diff A B \<union> (A \<inter> B - ex - good) \<union> good) + card ex"
    using f p by (intro card_Un_disjoint) auto
  also have "card (sym_diff A B \<union> (A \<inter> B - ex - good) \<union> good)
      = card (sym_diff A B \<union> (A \<inter> B - ex - good)) + card good"
    using f p by (intro card_Un_disjoint) auto
  also have "card (sym_diff A B \<union> (A \<inter> B - ex - good))
      = card (sym_diff A B) + card (A \<inter> B - ex - good)"
    using f p by (intro card_Un_disjoint) auto
  finally show ?thesis by simp
qed

lemma classify_hits_Inl:
  assumes "classify_hits E self A B = Inl e" and fin: "finite A" "finite B"
  shows "plain_error e"
proof -
  let ?m = "A \<inter> B" and ?nm = "sym_diff A B"
  let ?ex0 = "exclusive_of ?m ?nm"
  show ?thesis
  proof (cases "good_hit_threshold E self ?ex0")
    case (Inl e')
    then show ?thesis using assms(1) by (auto simp: classify_hits_def Let_def dest: good_hit_threshold_Inl)
  next
    case thr: (Inr thr)
    show ?thesis
    proof (cases "filter_by_dist self thr (list_of ?ex0)")
      case (Inl e')
      then show ?thesis using assms(1) thr
        by (auto simp: classify_hits_def Let_def dest: filter_by_dist_Inl)
    next
      case cap: (Inr capped)
      have fe: "finite ?ex0" using fin exclusive_of_subset[of ?m ?nm] by (meson finite_Int finite_subset)
      have exs: "set capped \<subseteq> ?m"
        using filter_by_dist_Inr[OF cap] exclusive_of_subset[of ?m ?nm] fe by (auto simp: set_list_of)
      have fm: "finite (?m - set capped)" using fin by simp
      have tw: "\<forall>h\<in>set (list_of (?m - set capped)). \<forall>d. single_hit_dist self h = Inr d
                  \<longrightarrow> d \<le> thr \<longrightarrow> third_wheels ?nm h \<noteq> []"
        using examined_pair_has_third_wheel[OF fin cap] fm fin
        by (simp add: set_list_of third_wheels_nonempty finite_sym_diff)
      show ?thesis
      proof (cases "good_mutual_loop self ?nm thr (2 * thr) (list_of (?m - set capped)) {}")
        case (Inl e')
        from good_mutual_loop_Inl[OF Inl tw] show ?thesis using assms(1) thr cap Inl
          by (simp add: classify_hits_def Let_def)
      next
        case (Inr good)
        have gs: "good \<subseteq> ?m - set capped"
          using good_mutual_loop_subset[OF Inr] fm by (simp add: set_list_of)
        from partition_of_categories(1)[OF exs gs] card_of_categories[OF fin exs gs]
        show ?thesis using assms(1) thr cap Inr by (simp add: classify_hits_def Let_def)
      qed
    qed
  qed
qed

lemma nearest_neighbors_Inl: "nearest_neighbors E self = Inl e \<Longrightarrow> plain_error e"
  by (auto simp: nearest_neighbors_def bind_eq_Inl dest: attr_Inl lib_Inl)

lemma nearest_neighbors_finite:
  "nearest_neighbors E self = Inr nn \<Longrightarrow> finite (fst nn) \<and> finite (snd nn)"
  by (auto simp: nearest_neighbors_def bind_eq_Inr cluster_to_aligned_indexes_def
      aligned_to_cluster_indexs_rev_def)

lemma frame_points_Inl: "frame_points sh k rs ps acc = Inl e \<Longrightarrow> plain_error e"
  by (induction sh k rs ps acc rule: frame_points.induct)
     (auto simp: plain_error_def split: if_splits)

lemma frame_tiles_Inl: "frame_tiles sh self ks acc = Inl e \<Longrightarrow> plain_error e"
  by (induction ks arbitrary: acc)
     (auto simp: bind_eq_Inl Let_def dest: get_tile_Inl attr_Inl frame_points_Inl)

lemma find_points_in_frame_Inl: "find_points_in_frame c self = Inl e \<Longrightarrow> plain_error e"
  by (auto simp: find_points_in_frame_def bind_eq_Inl Let_def dest: attr_Inl frame_tiles_Inl)

lemma find_points_in_frame_Inr:
  "find_points_in_frame c self = Inr s \<Longrightarrow>
     \<exists>a b. s = self\<lparr>rcs_in_frame := a, aligned_rcs_in_frame := b\<rparr>"
  by (auto simp: find_points_in_frame_def bind_eq_Inr Let_def)

lemma find_hits_Inl:
  assumes "find_hits E c self = Inl e"
  shows "plain_error e"
proof (cases "find_points_in_frame c self")
  case (Inl e')
  then show ?thesis using assms by (auto simp: find_hits_def dest: find_points_in_frame_Inl)
next
  case s1: (Inr s1)
  show ?thesis
  proof (cases "nearest_neighbors E s1")
    case (Inl e')
    then show ?thesis using assms s1 by (auto simp: find_hits_def dest: nearest_neighbors_Inl)
  next
    case nn: (Inr nn)
    from nearest_neighbors_finite[OF nn] have fin: "finite (fst nn)" "finite (snd nn)" by auto
    show ?thesis
    proof (cases "classify_hits E s1 (fst nn) (snd nn)")
      case (Inl e')
      from classify_hits_Inl[OF Inl fin] show ?thesis using assms s1 nn Inl by (simp add: find_hits_def)
    next
      case (Inr cat)
      then show ?thesis using assms s1 nn by (cases cat) (simp add: find_hits_def)
    qed
  qed
qed

lemma find_hits_Inr:
  assumes "find_hits E c self = Inr self'"
  shows "\<exists>s1 A B ex good. find_points_in_frame c self = Inr s1
     \<and> nearest_neighbors E s1 = Inr (A, B)
     \<and> classify_hits E s1 A B = Inr (sym_diff A B, A \<inter> B, A \<inter> B - ex - good, good, ex)
     \<and> ex \<subseteq> A \<inter> B \<and> good \<subseteq> A \<inter> B - ex
     \<and> self' = s1\<lparr>non_mutual_hits := sym_diff A B, mutual_hits := A \<inter> B,
                  bad_mutual_hits := A \<inter> B - ex - good, good_mutual_hits := good,
                  exclusive_hits := ex\<rparr>"
proof -
  from assms obtain s1 nn cat where s1: "find_points_in_frame c self = Inr s1"
    and nn: "nearest_neighbors E s1 = Inr nn"
    and cat: "classify_hits E s1 (fst nn) (snd nn) = Inr cat"
    and r: "(case cat of (non_mutual, mutual, bad_mutual, good_mutual, exclusive) \<Rightarrow>
         Inr (s1\<lparr>non_mutual_hits := non_mutual, mutual_hits := mutual,
                    bad_mutual_hits := bad_mutual, good_mutual_hits := good_mutual,
                    exclusive_hits := exclusive\<rparr>)) = Inr self'"
    unfolding find_hits_def by (auto simp: bind_eq_Inr)
  obtain nm m bad good ex where c: "cat = (nm, m, bad, good, ex)" by (cases cat) auto
  from classify_hits_Inr[OF cat[unfolded c]] c r cat nn s1 show ?thesis
    by (cases nn) auto
qed

lemma example_points: "find_points_in_frame None aligner_example = Inr frame_example"
  by (simp add: find_points_in_frame_def aligner_example_def image_example_def attr_def
      get_tile_def tile_example_def enumerate_eq_zip py_int_def upt_rec in_bounds_def frame_example_def)

lemma frame_example_fields:
  "clusters frame_example = Some [(1, 1), (8, 8), (15, 1)]"
  "aligned_rcs_in_frame frame_example = [(1, 2), (8, 19), (8, 8), (15, 2), (15, 4)]"
  "image_data frame_example = Some image_example"
  by (simp_all add: frame_example_def aligner_example_def)

lemma example_neighbors:
  "nearest_neighbors ext_example frame_example =
     Inr ({(0, 0), (1, 2), (2, 3)}, {(0, 0), (1, 1), (1, 2), (2, 3), (2, 4)})"
  by (simp add: nearest_neighbors_def frame_example_fields attr_def lib_def ext_example_def
      kdtree_example_def cluster_to_aligned_indexes_def aligned_to_cluster_indexs_rev_def
      enumerate_eq_zip upt_rec sqdist_def eval_nat_numeral insert_commute)

lemma example_mutual: "{(0, 0), (1, 2), (2, 3)} \<inter> {(0, 0), (1, 1), (1, 2), (2, 3), (2, 4)}
    = {(0::nat, 0::nat), (1, 2), (2, 3)}"
  by auto

lemma example_non_mutual: "sym_diff {(0, 0), (1, 2), (2, 3)} {(0, 0), (1, 1), (1, 2), (2, 3), (2, 4)}
    = {(1, 1), (2, 4)}"
  by (auto simp: sym_diff_def)

lemma example_exclusive: "exclusive_of {(0, 0), (1, 2), (2, 3)} {(1, 1), (2, 4)} = {(0, 0)}"
  by (auto simp: exclusive_of_def)

lemma np_norm_diff_same_row: "np_norm_diff (a, b) (a, d) = \<bar>b - d\<bar>"
  by (simp add: np_norm_diff_def)

lemma example_dists:
  "single_hit_dist frame_example (0, 0) = Inr 1"
  "single_hit_dist frame_example (1, 2) = Inr 0"
  "single_hit_dist frame_example (2, 3) = Inr 1"
  "single_hit_dist frame_example (1, 1) = Inr 11"
  "single_hit_dist frame_example (2, 4) = Inr 3"
  by (simp_all add: single_hit_dist_def frame_example_fields attr_def np_norm_diff_same_row
      eval_nat_numeral)

lemma example_threshold: "good_hit_threshold ext_example frame_example {(0, 0)} = Inr 5"
  by (simp add: good_hit_threshold_def frame_example_fields attr_def image_example_def py_int_def)

lemma example_lists:
  "list_of {(0, 0)} = [(0, 0)]"
  "list_of ({(0, 0), (1, 2), (2, 3)} - set [(0, 0)]) = [(1, 2), (2, 3)]"
  "list_of {(1, 1), (2, 4)} = [(1, 1), (2, 4)]"
  unfolding list_of_def by code_simp+

lemma example_capped: "filter_by_dist frame_example 5 [(0, 0)] = Inr [(0, 0)]"
  by (simp add: example_dists[unfolded One_nat_def])

lemma example_good:
  "good_mutual_loop frame_example {(1, 1), (2, 4)} 5 (2 * 5) [(1, 2), (2, 3)] {} = Inr {(1, 2)}"
  by (simp add: example_dists[unfolded One_nat_def] third_wheels_def example_lists[unfolded One_nat_def])

lemma example_classify:
  "classify_hits ext_example frame_example {(0, 0), (1, 2), (2, 3)} {(0, 0), (1, 1), (1, 2), (2, 3), (2, 4)}
     = Inr ({(1, 1), (2, 4)}, {(0, 0), (1, 2), (2, 3)}, {(2, 3)}, {(1, 2)}, {(0, 0)})"
proof -
  have bad: "{(0, 0), (1, 2), (2, 3)} - set [(0, 0)] - {(1, 2)} = {(2::nat, 3::nat)}" by auto
  have un: "{(1, 1), (2, 4)} \<union> {(2, 3)} \<union> {(1, 2)} \<union> set [(0, 0)]
      = {(0, 0), (1, 2), (2, 3)} \<union> {(0::nat, 0::nat), (1, 1), (1, 2), (2, 3), (2, 4)}" by auto
  have "{(0, 0), (1, 2), (2, 3)} \<union> {(0::nat, 0::nat), (1, 1), (1, 2), (2, 3), (2, 4)}
      = {(0, 0), (1, 1), (1, 2), (2, 3), (2, 4)}" by auto
  then have cd: "card ({(0, 0), (1, 2), (2, 3)} \<union> {(0::nat, 0::nat), (1, 1), (1, 2), (2, 3), (2, 4)}) = 5"
    by simp
  show ?thesis
    unfolding classify_hits_def Let_def example_mutual example_non_mutual example_exclusive
    by (simp only: example_threshold bind_Inr example_lists example_capped example_good bad un cd)
       simp
qed

lemma nearest_neighbors_hits_update:
  "nearest_neighbors E (s\<lparr>non_mutual_hits := a, mutual_hits := b, bad_mutual_hits := c,
       good_mutual_hits := d, exclusive_hits := e\<rparr>) = nearest_neighbors E s"
  by (simp add: nearest_neighbors_def)

lemma example_find_hits:
  "find_hits ext_example None aligner_example =
     Inr (frame_example\<lparr>non_mutual_hits := {(1, 1), (2, 4)}, mutual_hits := {(0, 0), (1, 2), (2, 3)},
            bad_mutual_hits := {(2, 3)}, good_mutual_hits := {(1, 2)}, exclusive_hits := {(0, 0)}\<rparr>)"
  unfolding find_hits_def
  by (simp only: example_points bind_Inr example_neighbors fst_conv snd_conv example_classify prod.case)

text \<open>
  C2. \<open>find_hits\<close> never fails its assertion, and when it returns, the four sets of hits
  it leaves on the engine are pairwise disjoint and their union is the union of the two
  directional nearest-neighbour relations (those of the clusters and the points in frame
  it leaves on the engine).
\<close>

theorem find_hits_partition:
  "find_hits E consider_tiles self \<noteq> Inl AssertionError
   \<and> (\<forall>self'. find_hits E consider_tiles self = Inr self' \<longrightarrow>
        (\<exists>A B. nearest_neighbors E self' = Inr (A, B)
           \<and> non_mutual_hits self' \<union> bad_mutual_hits self' \<union> good_mutual_hits self' \<union> exclusive_hits self'
               = A \<union> B
           \<and> non_mutual_hits self' \<inter> bad_mutual_hits self' = {}
           \<and> non_mutual_hits self' \<inter> good_mutual_hits self' = {}
           \<and> non_mutual_hits self' \<inter> exclusive_hits self' = {}
           \<and> bad_mutual_hits self' \<inter> good_mutual_hits self' = {}
           \<and> bad_mutual_hits self' \<inter> exclusive_hits self' = {}
           \<and> good_mutual_hits self' \<inter> exclusive_hits self' = {}))"
proof (intro conjI allI impI)
  show "find_hits E consider_tiles self \<noteq> Inl AssertionError"
    using find_hits_Inl[of E consider_tiles self AssertionError] by (auto simp: plain_error_def)
next
  fix self' assume "find_hits E consider_tiles self = Inr self'"
  from find_hits_Inr[OF this] obtain s1 A B ex good where
    nn: "nearest_neighbors E s1 = Inr (A, B)"
    and sub: "ex \<subseteq> A \<inter> B" "good \<subseteq> A \<inter> B - ex"
    and s: "self' = s1\<lparr>non_mutual_hits := sym_diff A B, mutual_hits := A \<inter> B,
                  bad_mutual_hits := A \<inter> B - ex - good, good_mutual_hits := good,
                  exclusive_hits := ex\<rparr>"
    by blast
  have nn': "nearest_neighbors E self' = Inr (A, B)"
    unfolding s nearest_neighbors_hits_update by (rule nn)
  note p = partition_of_categories[OF sub]
  show "\<exists>A B. nearest_neighbors E self' = Inr (A, B)
           \<and> non_mutual_hits self' \<union> bad_mutual_hits self' \<union> good_mutual_hits self' \<union> exclusive_hits self'
               = A \<union> B
           \<and> non_mutual_hits self' \<inter> bad_mutual_hits self' = {}
           \<and> non_mutual_hits self' \<inter> good_mutual_hits self' = {}
           \<and> non_mutual_hits self' \<inter> exclusive_hits self' = {}
           \<and> bad_mutual_hits self' \<inter> good_mutual_hits self' = {}
           \<and> bad_mutual_hits self' \<inter> exclusive_hits self' = {}
           \<and> good_mutual_hits self' \<inter> exclusive_hits self' = {}"
    apply (rule exI[where x = A], rule exI[where x = B])
    using nn' p by (simp add: s)
qed

theorem find_hits_partition_witness:
  "\<exists>self'. find_hits ext_example None aligner_example = Inr self'
     \<and> non_mutual_hits self' = {(1, 1), (2, 4)} \<and> bad_mutual_hits self' = {(2, 3)}
     \<and> good_mutual_hits self' = {(1, 2)} \<and> exclusive_hits self' = {(0, 0)}
     \<and> nearest_neighbors ext_example self'
          = Inr ({(0, 0), (1, 2), (2, 3)}, {(0, 0), (1, 1), (1, 2), (2, 3), (2, 4)})
     \<and> non_mutual_hits self' \<union> bad_mutual_hits self' \<union> good_mutual_hits self' \<union> exclusive_hits self'
          = {(0, 0), (1, 2), (2, 3)} \<union> {(0, 0), (1, 1), (1, 2), (2, 3), (2, 4)}
     \<and> non_mutual_hits self' \<inter> bad_mutual_hits self' = {}
     \<and> good_mutual_hits self' \<inter> exclusive_hits self' = {}"
proof -
  let ?s = "frame_example\<lparr>non_mutual_hits := {(1, 1), (2, 4)}, mutual_hits := {(0, 0), (1, 2), (2, 3)},
            bad_mutual_hits := {(2, 3)}, good_mutual_hits := {(1, 2)}, exclusive_hits := {(0, 0)}\<rparr>"
  have nn: "nearest_neighbors ext_example ?s
          = Inr ({(0, 0), (1, 2), (2, 3)}, {(0, 0), (1, 1), (1, 2), (2, 3), (2, 4)})"
    unfolding nearest_neighbors_hits_update by (rule example_neighbors)
  have "\<forall>self'. find_hits ext_example None aligner_example = Inr self' \<longrightarrow>
        (\<exists>A B. nearest_neighbors ext_example self' = Inr (A, B)
           \<and> non_mutual_hits self' \<union> bad_mutual_hits self' \<union> good_mutual_hits self' \<union> exclusive_hits self'
               = A \<union> B
           \<and> non_mutual_hits self' \<inter> bad_mutual_hits self' = {}
           \<and> non_mutual_hits self' \<inter> good_mutual_hits self' = {}
           \<and> non_mutual_hits self' \<inter> exclusive_hits self' = {}
           \<and> bad_mutual_hits self' \<inter> good_mutual_hits self' = {}
           \<and> bad_mutual_hits self' \<inter> exclusive_hits self' = {}
           \<and> good_mutual_hits self' \<inter> exclusive_hits self' = {})"
    using find_hits_partition[of ext_example None aligner_example] by (rule conjunct2)
  with example_find_hits obtain A B where
    ab: "nearest_neighbors ext_example ?s = Inr (A, B)"
    and u: "non_mutual_hits ?s \<union> bad_mutual_hits ?s \<union> good_mutual_hits ?s \<union> exclusive_hits ?s = A \<union> B"
    and d1: "non_mutual_hits ?s \<inter> bad_mutual_hits ?s = {}"
    and d2: "good_mutual_hits ?s \<inter> exclusive_hits ?s = {}"
    by blast
  from ab nn have "A = {(0, 0), (1, 2), (2, 3)}" "B = {(0, 0), (1, 1), (1, 2), (2, 3), (2, 4)}"
    by simp_all
  with u d1 d2
  have "non_mutual_hits ?s \<union> bad_mutual_hits ?s \<union> good_mutual_hits ?s \<union> exclusive_hits ?s
          = {(0, 0), (1, 2), (2, 3)} \<union> {(0, 0), (1, 1), (1, 2), (2, 3), (2, 4)}
     \<and> non_mutual_hits ?s \<inter> bad_mutual_hits ?s = {}
     \<and> good_mutual_hits ?s \<inter> exclusive_hits ?s = {}"
    by simp
  with example_find_hits nn show ?thesis
    by (intro exI[where x = ?s]) simp
qed

text \<open>
  C10. \<open>find_hits\<close> never raises the error of \<open>min\<close> on an empty sequence: a mutual pair
  outside the capped exclusive set whose distance is at most the threshold shares an
  endpoint with a non-mutual pair, so its list of third wheels is not empty.
\<close>

theorem find_hits_min_never_empty:
  "find_hits E consider_tiles self \<noteq> Inl (ValueError ''min() arg is an empty sequence'')
   \<and> (\<forall>s1 A B good_thresh capped h d.
         find_points_in_frame consider_tiles self = Inr s1
         \<and> nearest_neighbors E s1 = Inr (A, B)
         \<and> filter_by_dist s1 good_thresh (list_of (exclusive_of (A \<inter> B) (sym_diff A B))) = Inr capped
         \<and> h \<in> A \<inter> B - set capped
         \<and> single_hit_dist s1 h = Inr d \<and> d \<le> good_thresh
         \<longrightarrow> third_wheels (sym_diff A B) h \<noteq> [])"
proof (intro conjI allI impI)
  show "find_hits E consider_tiles self \<noteq> Inl (ValueError ''min() arg is an empty sequence'')"
    using find_hits_Inl[of E consider_tiles self "ValueError ''min() arg is an empty sequence''"]
    by (auto simp: plain_error_def)
next
  fix s1 A B good_thresh capped h d
  assume a: "find_points_in_frame consider_tiles self = Inr s1
         \<and> nearest_neighbors E s1 = Inr (A, B)
         \<and> filter_by_dist s1 good_thresh (list_of (exclusive_of (A \<inter> B) (sym_diff A B))) = Inr capped
         \<and> h \<in> A \<inter> B - set capped
         \<and> single_hit_dist s1 h = Inr d \<and> d \<le> good_thresh"
  then have fin: "finite A" "finite B" using nearest_neighbors_finite[of E s1 "(A, B)"] by auto
  from a examined_pair_has_third_wheel[OF fin, of s1 good_thresh capped h d]
  have "\<exists>tup\<in>sym_diff A B. fst h = fst tup \<or> snd h = snd tup" by blast
  then show "third_wheels (sym_diff A B) h \<noteq> []"
    using fin by (simp add: third_wheels_nonempty finite_sym_diff)
qed

theorem find_hits_min_never_empty_witness:
  "find_points_in_frame None aligner_example = Inr frame_example
   \<and> nearest_neighbors ext_example frame_example
        = Inr ({(0, 0), (1, 2), (2, 3)}, {(0, 0), (1, 1), (1, 2), (2, 3), (2, 4)})
   \<and> filter_by_dist frame_example 5 (list_of (exclusive_of
          ({(0, 0), (1, 2), (2, 3)} \<inter> {(0, 0), (1, 1), (1, 2), (2, 3), (2, 4)})
          (sym_diff {(0, 0), (1, 2), (2, 3)} {(0, 0), (1, 1), (1, 2), (2, 3), (2, 4)}))) = Inr [(0, 0)]
   \<and> (1, 2) \<in> {(0, 0), (1, 2), (2, 3)} \<inter> {(0::nat, 0::nat), (1, 1), (1, 2), (2, 3), (2, 4)} - set [(0, 0)]
   \<and> single_hit_dist frame_example (1, 2) = Inr 0 \<and> (0::real) \<le> 5
   \<and> third_wheels (sym_diff {(0, 0), (1, 2), (2, 3)} {(0, 0), (1, 1), (1, 2), (2, 3), (2, 4)}) (1, 2) \<noteq> []
   \<and> third_wheels {(1, 1), (2, 4)} (1, 2) = [(1, 1)]"
proof -
  have c: "filter_by_dist frame_example 5 (list_of (exclusive_of
          ({(0, 0), (1, 2), (2, 3)} \<inter> {(0, 0), (1, 1), (1, 2), (2, 3), (2, 4)})
          (sym_diff {(0, 0), (1, 2), (2, 3)} {(0, 0), (1, 1), (1, 2), (2, 3), (2, 4)}))) = Inr [(0, 0)]"
    unfolding example_mutual example_non_mutual example_exclusive example_lists by (rule example_capped)
  have m: "(1, 2) \<in> {(0, 0), (1, 2), (2, 3)} \<inter> {(0::nat, 0::nat), (1, 1), (1, 2), (2, 3), (2, 4)} - set [(0, 0)]"
    by simp
  have tw: "third_wheels {(1, 1), (2, 4)} (1, 2) = [(1, 1)]"
    by (simp add: third_wheels_def example_lists[unfolded One_nat_def])
  have all: "find_points_in_frame None aligner_example = Inr frame_example
         \<and> nearest_neighbors ext_example frame_example
              = Inr ({(0, 0), (1, 2), (2, 3)}, {(0, 0), (1, 1), (1, 2), (2, 3), (2, 4)})
         \<and> filter_by_dist frame_example 5 (list_of (exclusive_of
                ({(0, 0), (1, 2), (2, 3)} \<inter> {(0, 0), (1, 1), (1, 2), (2, 3), (2, 4)})
                (sym_diff {(0, 0), (1, 2), (2, 3)} {(0, 0), (1, 1), (1, 2), (2, 3), (2, 4)}))) = Inr [(0, 0)]
         \<and> (1, 2) \<in> {(0, 0), (1, 2), (2, 3)} \<inter> {(0::nat, 0::nat), (1, 1), (1, 2), (2, 3), (2, 4)} - set [(0, 0)]
         \<and> single_hit_dist frame_example (1, 2) = Inr 0 \<and> (0::real) \<le> 5"
    using example_points example_neighbors c m example_dists(2) by simp
  have "third_wheels (sym_diff {(0, 0), (1, 2), (2, 3)} {(0, 0), (1, 1), (1, 2), (2, 3), (2, 4)}) (1, 2) \<noteq> []"
    by (rule find_hits_min_never_empty[of ext_example None aligner_example, THEN conjunct2, rule_format, OF all])
  with example_points example_neighbors c m example_dists(2) tw show ?thesis by simp
qed

section \<open>Properties of precision alignment\<close>

lemma single_hit_dist_agree: "agree s1 s2 \<Longrightarrow> single_hit_dist s1 h = single_hit_dist s2 h"
  by (simp add: agree_def single_hit_dist_def cong: if_cong)

lemma hit_dists_agree: "agree s1 s2 \<Longrightarrow> hit_dists s1 hs = hit_dists s2 hs"
  by (induction hs) (simp_all add: single_hit_dist_agree)

lemma filter_by_dist_agree: "agree s1 s2 \<Longrightarrow> filter_by_dist s1 t hs = filter_by_dist s2 t hs"
  by (induction hs) (simp_all add: single_hit_dist_agree)

lemma good_hit_threshold_agree:
  "agree s1 s2 \<Longrightarrow> good_hit_threshold E s1 ex = good_hit_threshold E s2 ex"
  by (simp add: good_hit_threshold_def hit_dists_agree[of s1 s2] agree_def cong: if_cong)

lemma good_mutual_loop_agree:
  "agree s1 s2 \<Longrightarrow> good_mutual_loop s1 nm t1 t2 hs good = good_mutual_loop s2 nm t1 t2 hs good"
proof (induction hs arbitrary: good)
  case Nil
  then show ?case by simp
next
  case (Cons h hs)
  have a: "hit_dists s1 xs = hit_dists s2 xs" for xs using Cons.prems by (rule hit_dists_agree)
  have b: "single_hit_dist s1 h = single_hit_dist s2 h" using Cons.prems by (rule single_hit_dist_agree)
  show ?case using Cons.IH[OF Cons.prems] by (simp add: a b cong: if_cong)
qed

lemma classify_hits_agree: "agree s1 s2 \<Longrightarrow> classify_hits E s1 A B = classify_hits E s2 A B"
  by (simp add: classify_hits_def good_hit_threshold_agree[of s1 s2]
      filter_by_dist_agree[of s1 s2] good_mutual_loop_agree[of s1 s2] cong: if_cong)

lemma nearest_neighbors_agree: "agree s1 s2 \<Longrightarrow> nearest_neighbors E s1 = nearest_neighbors E s2"
  by (simp add: nearest_neighbors_def agree_def)

lemma frame_tiles_cong:
  "fastq_tiles s1 = fastq_tiles s2 \<Longrightarrow> frame_tiles sh s1 ks acc = frame_tiles sh s2 ks acc"
proof (induction ks arbitrary: acc)
  case Nil
  then show ?case by simp
next
  case (Cons k ks)
  have "frame_tiles sh s1 ks = frame_tiles sh s2 ks" using Cons by (intro ext) simp
  then show ?case using Cons.prems by (simp add: get_tile_def)
qed

lemma find_points_in_frame_overwrite:
  "find_points_in_frame c (self\<lparr>rcs_in_frame := a, aligned_rcs_in_frame := b, non_mutual_hits := n,
       mutual_hits := m, bad_mutual_hits := bd, good_mutual_hits := g, exclusive_hits := e\<rparr>)
     = (case find_points_in_frame c self of
          Inl e' \<Rightarrow> Inl e'
        | Inr t \<Rightarrow> Inr (t\<lparr>non_mutual_hits := n, mutual_hits := m, bad_mutual_hits := bd,
                          good_mutual_hits := g, exclusive_hits := e\<rparr>))"
proof -
  let ?s = "self\<lparr>rcs_in_frame := a, aligned_rcs_in_frame := b, non_mutual_hits := n,
       mutual_hits := m, bad_mutual_hits := bd, good_mutual_hits := g, exclusive_hits := e\<rparr>"
  have ft: "frame_tiles sh ?s ks acc = frame_tiles sh self ks acc" for sh ks acc
    by (rule frame_tiles_cong) simp
  show ?thesis
  proof (cases "image_data self")
    case None
    then show ?thesis by (simp add: find_points_in_frame_def attr_def)
  next
    case (Some im)
    show ?thesis
    proof (cases c)
      case None
      then show ?thesis using Some
        by (simp add: find_points_in_frame_def attr_def Let_def ft bind_def split: sum.splits)
    next
      case (Some k)
      then show ?thesis using \<open>image_data self = Some im\<close>
        by (simp add: find_points_in_frame_def attr_def Let_def ft bind_def split: sum.splits)
    qed
  qed
qed

lemma find_hits_overwrite:
  "find_hits E c (self\<lparr>rcs_in_frame := a, aligned_rcs_in_frame := b, non_mutual_hits := n,
       mutual_hits := m, bad_mutual_hits := bd, good_mutual_hits := g, exclusive_hits := e\<rparr>)
     = find_hits E c self"
proof (cases "find_points_in_frame c self")
  case (Inl e')
  then show ?thesis by (simp add: find_hits_def find_points_in_frame_overwrite)
next
  case (Inr t)
  let ?t' = "t\<lparr>non_mutual_hits := n, mutual_hits := m, bad_mutual_hits := bd,
                          good_mutual_hits := g, exclusive_hits := e\<rparr>"
  have ag: "agree ?t' t" by (simp add: agree_def)
  show ?thesis
    unfolding find_hits_def find_points_in_frame_overwrite Inr sum.case bind_Inr
      nearest_neighbors_agree[OF ag] classify_hits_agree[OF ag]
    by (auto simp: bind_def split: sum.splits)
qed

lemma find_hits_shape:
  assumes "find_hits E c self = Inr s"
  shows "\<exists>a b n m bd g e. s = self\<lparr>rcs_in_frame := a, aligned_rcs_in_frame := b, non_mutual_hits := n,
       mutual_hits := m, bad_mutual_hits := bd, good_mutual_hits := g, exclusive_hits := e\<rparr>"
proof -
  from find_hits_Inr[OF assms] obtain s1 A B ex good where
    s1: "find_points_in_frame c self = Inr s1"
    and s: "s = s1\<lparr>non_mutual_hits := sym_diff A B, mutual_hits := A \<inter> B,
                  bad_mutual_hits := A \<inter> B - ex - good, good_mutual_hits := good,
                  exclusive_hits := ex\<rparr>"
    by blast
  from find_points_in_frame_Inr[OF s1] obtain a b where
    "s1 = self\<lparr>rcs_in_frame := a, aligned_rcs_in_frame := b\<rparr>" by blast
  with s show ?thesis by blast
qed

lemma tile_pool_after_find_hits:
  assumes "find_hits E c self = Inr s"
  shows "tile_pool E p k s = tile_pool E p k self"
proof -
  from find_hits_shape[OF assms] obtain a b n m bd g e where
    "s = self\<lparr>rcs_in_frame := a, aligned_rcs_in_frame := b, non_mutual_hits := n,
       mutual_hits := m, bad_mutual_hits := bd, good_mutual_hits := g, exclusive_hits := e\<rparr>"
    by blast
  then show ?thesis by (simp only: tile_pool_def find_hits_overwrite)
qed

lemma remove_longest_hits_Inl: "remove_longest_hits E self hits p = Inl e \<Longrightarrow> plain_error e"
  by (auto simp: remove_longest_hits_def bind_eq_Inl
      dest: hit_dists_Inl lib_Inl filter_by_dist_Inl split: if_splits)

lemma hit_pool_Inl: "hit_pool E p self = Inl e \<Longrightarrow> plain_error e"
  by (auto simp: hit_pool_def Let_def dest: remove_longest_hits_Inl)

lemma lstsq_rows_Inl: "lstsq_rows self hits = Inl e \<Longrightarrow> plain_error e"
  by (induction hits arbitrary: e)
     (auto simp: bind_eq_Inl Let_def plain_error_def attr_def split: if_splits option.splits)

lemma fit_tile_Inl: "fit_tile E k hits self = Inl e \<Longrightarrow> plain_error e"
  by (auto simp: fit_tile_def bind_eq_Inl Let_def
      dest: attr_Inl lstsq_rows_Inl lib_Inl get_tile_Inl split: prod.splits)

lemma lsm_loop_Inl: "lsm_loop E p mh ks found self = Inl e \<Longrightarrow> plain_error e"
proof (induction ks arbitrary: found self)
  case Nil
  then show ?case by simp
next
  case (Cons k ks)
  from Cons.prems show ?case
    by (auto simp: bind_eq_Inl split: if_splits
        dest: find_hits_Inl hit_pool_Inl fit_tile_Inl Cons.IH)
qed

lemma lsm_loop_True: "lsm_loop E p mh ks True self = Inr r \<Longrightarrow> fst r"
proof (induction ks arbitrary: self)
  case Nil
  then show ?case by auto
next
  case (Cons k ks)
  from Cons.prems show ?case
    by (auto simp: bind_eq_Inr split: if_splits dest: Cons.IH)
qed

lemma lsm_loop_False_iff:
  "(\<exists>s'. lsm_loop E p mh ks False self = Inr (False, s')) \<longleftrightarrow>
     (\<forall>k\<in>set ks. \<exists>hits. tile_pool E p k self = Inr hits \<and> int (length hits) < mh)"
proof (induction ks arbitrary: self)
  case Nil
  then show ?case by simp
next
  case (Cons k ks)
  show ?case
  proof (cases "find_hits E (Some k) self")
    case (Inl e)
    then show ?thesis by (simp add: tile_pool_def)
  next
    case s1: (Inr s1)
    have tp: "tile_pool E p k' s1 = tile_pool E p k' self" for k'
      by (rule tile_pool_after_find_hits[OF s1])
    show ?thesis
    proof (cases "hit_pool E p s1")
      case (Inl e)
      then show ?thesis using s1 by (simp add: tile_pool_def)
    next
      case hits: (Inr hits)
      show ?thesis
      proof (cases "int (length hits) < mh")
        case True
        then have "lsm_loop E p mh (k # ks) False self = lsm_loop E p mh ks False s1"
          using s1 hits by simp
        moreover have "tile_pool E p k self = Inr hits" using s1 hits by (simp add: tile_pool_def)
        ultimately show ?thesis using Cons.IH[of s1] True by (simp add: tp)
      next
        case False
        have no: "\<not> (\<exists>s'. lsm_loop E p mh (k # ks) False self = Inr (False, s'))"
        proof
          assume "\<exists>s'. lsm_loop E p mh (k # ks) False self = Inr (False, s')"
          then obtain s' s2 where "lsm_loop E p mh ks True s2 = Inr (False, s')"
            using s1 hits False by (auto simp: bind_eq_Inr)
          from lsm_loop_True[OF this] show False by simp
        qed
        have "tile_pool E p k self = Inr hits" using s1 hits by (simp add: tile_pool_def)
        then show ?thesis using no False by auto
      qed
    qed
  qed
qed

lemma not_plain_could_not: "\<not> plain_error (ValueError msg)" "\<not> plain_error (RuntimeError msg)"
  by (simp_all add: plain_error_def)

text \<open>
  C5. With no hitting tile \<open>precision_align_only\<close> raises \<open>RuntimeError\<close> at once,
  whatever the engine's least squares would do. With hitting tiles it raises the value
  error "Could not precision align!" exactly when, for every hitting tile, the pool of
  exclusive and good mutual hits of that tile, trimmed at the 90th percentile of the
  distances, is computed and has fewer than \<open>min_hits\<close> hits. (An exception raised while
  a pool is computed leaves \<open>precision_align_only\<close> as itself.)
\<close>

theorem precision_align_only_errors:
  "(hitting_tiles self = [] \<longrightarrow>
      precision_align_only E min_hits self = Inl (RuntimeError ''Alignment not found''))
   \<and> (hitting_tiles self \<noteq> [] \<longrightarrow>
        (precision_align_only E min_hits self = Inl (ValueError ''Could not precision align!'')
         \<longleftrightarrow> (\<forall>k\<in>set (hitting_tiles self).
                \<exists>hits. tile_pool E (9 / 10) k self = Inr hits \<and> int (length hits) < min_hits)))"
proof (intro conjI impI)
  assume "hitting_tiles self = []"
  then show "precision_align_only E min_hits self = Inl (RuntimeError ''Alignment not found'')"
    by (simp add: precision_align_only_def)
next
  assume ne: "hitting_tiles self \<noteq> []"
  let ?cnpa = "ValueError ''Could not precision align!''"
  let ?lsm = "lsm_loop E (9 / 10) min_hits (hitting_tiles self) False self"
  have "precision_align_only E min_hits self = Inl ?cnpa \<longleftrightarrow> (\<exists>s'. ?lsm = Inr (False, s'))"
  proof (cases ?lsm)
    case (Inl e)
    from lsm_loop_Inl[OF Inl] have "e \<noteq> ?cnpa" using not_plain_could_not by auto
    then show ?thesis using ne Inl
      by (simp add: precision_align_only_def least_squares_mapping_def)
  next
    case (Inr r)
    show ?thesis
    proof (cases "fst r")
      case True
      have "find_hits E None (snd r) \<noteq> Inl ?cnpa"
        using find_hits_Inl[of E None "snd r" ?cnpa] not_plain_could_not by auto
      then show ?thesis using ne Inr True
        by (cases r) (simp add: precision_align_only_def least_squares_mapping_def)
    next
      case False
      then show ?thesis using ne Inr
        by (cases r) (simp add: precision_align_only_def least_squares_mapping_def)
    qed
  qed
  then show "precision_align_only E min_hits self = Inl ?cnpa
         \<longleftrightarrow> (\<forall>k\<in>set (hitting_tiles self).
                \<exists>hits. tile_pool E (9 / 10) k self = Inr hits \<and> int (length hits) < min_hits)"
    by (simp only: lsm_loop_False_iff)
qed

lemma example_points_tile:
  "find_points_in_frame (Some ''lane1tile2101'') aligner_example = Inr frame_example"
  by (simp add: find_points_in_frame_def aligner_example_def image_example_def attr_def
      get_tile_def tile_example_def enumerate_eq_zip py_int_def upt_rec in_bounds_def frame_example_def)

lemma example_find_hits_tile:
  "find_hits ext_example (Some ''lane1tile2101'') aligner_example =
     Inr (frame_example\<lparr>non_mutual_hits := {(1, 1), (2, 4)}, mutual_hits := {(0, 0), (1, 2), (2, 3)},
            bad_mutual_hits := {(2, 3)}, good_mutual_hits := {(1, 2)}, exclusive_hits := {(0, 0)}\<rparr>)"
  unfolding find_hits_def
  by (simp only: example_points_tile bind_Inr example_neighbors fst_conv snd_conv example_classify prod.case)

lemma example_percentile: "percentile_example [1, 0] (9 / 10 * 100) = Some (9 / 10)"
  by (simp add: percentile_example_def Let_def)

lemma example_pool:
  "tile_pool ext_example (9 / 10) ''lane1tile2101'' aligner_example = Inr [(1, 2)]"
proof -
  let ?s = "frame_example\<lparr>non_mutual_hits := {(1, 1), (2, 4)}, mutual_hits := {(0, 0), (1, 2), (2, 3)},
            bad_mutual_hits := {(2, 3)}, good_mutual_hits := {(1, 2)}, exclusive_hits := {(0, 0)}\<rparr>"
  have ag: "agree ?s frame_example" by (simp add: agree_def)
  have l: "list_of {(1::nat, 2::nat)} = [(1, 2)]" by (simp add: list_of_def)
  have d: "hit_dists ?s [(0, 0), (1, 2)] = Inr [1, 0]"
    unfolding hit_dists_agree[OF ag] by (simp add: example_dists[unfolded One_nat_def])
  have f: "filter_by_dist ?s (9 / 10) [(0, 0), (1, 2)] = Inr [(1, 2)]"
    unfolding filter_by_dist_agree[OF ag] by (simp add: example_dists[unfolded One_nat_def])
  have p: "percentile ext_example [1, 0] (9 / 10 * 100) = Some (9 / 10)"
    using example_percentile by (simp add: ext_example_def)
  have raw: "list_of (exclusive_hits ?s) @ list_of (good_mutual_hits ?s) = [(0, 0), (1, 2)]"
    by (simp add: example_lists l[unfolded One_nat_def])
  have "hit_pool ext_example (9 / 10) ?s = Inr [(1, 2)]"
    unfolding hit_pool_def Let_def raw remove_longest_hits_def
    by (simp only: d p f bind_Inr lib_def option.case list.simps if_False)
  then show ?thesis by (simp add: tile_pool_def example_find_hits_tile)
qed

theorem precision_align_only_errors_witness:
  "hitting_tiles aligner_example = [''lane1tile2101'']
   \<and> tile_pool ext_example (9 / 10) ''lane1tile2101'' aligner_example = Inr [(1, 2)]
   \<and> precision_align_only ext_example 50 aligner_example = Inl (ValueError ''Could not precision align!'')
   \<and> precision_align_only ext_example 1 aligner_example \<noteq> Inl (ValueError ''Could not precision align!'')
   \<and> hitting_tiles rough_example = []
   \<and> precision_align_only ext_example 50 rough_example = Inl (RuntimeError ''Alignment not found'')"
proof -
  have h: "hitting_tiles aligner_example = [''lane1tile2101'']" by (simp add: aligner_example_def)
  have r: "hitting_tiles rough_example = []" by (simp add: rough_example_def)
  have a: "precision_align_only ext_example 50 aligner_example = Inl (ValueError ''Could not precision align!'')"
    using precision_align_only_errors[of aligner_example ext_example 50] h example_pool by simp
  have b: "precision_align_only ext_example 1 aligner_example \<noteq> Inl (ValueError ''Could not precision align!'')"
    using precision_align_only_errors[of aligner_example ext_example 1] h example_pool by simp
  have c: "precision_align_only ext_example 50 rough_example = Inl (RuntimeError ''Alignment not found'')"
    using precision_align_only_errors[of rough_example ext_example 50] r by simp
  from h r a b c example_pool show ?thesis by simp
qed

end
